theory Spec2Isabelle
  imports Complex_Main "HOL-Library.AList" "HOL-Library.Sublist"
begin

section \<open>Data model (src/types/marketMaker.ts, src/types/orders.ts, src/config/marketConfig.ts)\<close>

text \<open>
  A JavaScript \<open>number\<close> is modelled as a real: the arithmetic of the quoting functions is
  the exact one, without the rounding of IEEE doubles and without \<open>NaN\<close> or \<open>Infinity\<close>.
  A field that TypeScript declares optional (\<open>bidOrder?\<close>) is an \<open>option\<close>. An order's
  \<open>status\<close> is declared as a union of five string literals, but reconciliation stores
  whatever string the event stream delivers and the shutdown path tests \<open>!status\<close>, so
  the field is a \<open>string option\<close> (\<open>None\<close> is \<open>undefined\<close>).

  Several interfaces of the source share field names (\<open>ticker\<close>, \<open>timestamp\<close>,
  \<open>side\<close>, \<open>quantity\<close>, \<open>price\<close>, \<open>id\<close>): the records below keep the source's name once
  and prefix the others with the record they belong to.
\<close>

type_synonym number = real

datatype OrderSide = BID | ASK

datatype PositionSide = LONG | SHORT

record Order =
  order_id :: string
  order_ticker :: string
  order_side :: OrderSide
  price :: number
  quantity :: number
  quantityFilled :: number
  status :: "string option"
  order_timestamp :: int

record Position =
  position_ticker :: string
  position_side :: PositionSide
  position_quantity :: number
  entryPrice :: number
  position_timestamp :: int

record TradingPair =
  ticker :: string
  bidOrder :: "Order option"
  askOrder :: "Order option"
  longPosition :: "Position option"
  shortPosition :: "Position option"

record MarketState =
  market_ticker :: string
  midPrice :: number
  bidPrice :: number
  askPrice :: number
  maxDeviationPrice :: number
  market_timestamp :: int

record AssetConfig =
  config_ticker :: string
  orderSize :: number
  spreadWidth :: number
  maxPriceDeviation :: number
  tickSize :: "number option"
  minQuantity :: "number option"
  maxQuantity :: "number option"
  productId :: "string option"

section \<open>Quote arithmetic (src/utils/priceUtils.ts)\<close>

text \<open>\<open>Math.round\<close> rounds to the nearest integer, a half towards plus infinity.\<close>

definition Math_round :: "number \<Rightarrow> number" where
  "Math_round x = of_int \<lfloor>x + 1 / 2\<rfloor>"

definition roundToTickSize :: "number \<Rightarrow> number \<Rightarrow> number" where
  "roundToTickSize p tick = Math_round (p / tick) * tick"

definition basisPointsToDecimal :: "number \<Rightarrow> number" where
  "basisPointsToDecimal basisPoints = basisPoints / 10000"

definition calculateBidPrice :: "number \<Rightarrow> number \<Rightarrow> number" where
  "calculateBidPrice mid spreadBasisPoints =
     (let spreadDecimal = basisPointsToDecimal spreadBasisPoints
      in mid - (mid * spreadDecimal))"

definition calculateAskPrice :: "number \<Rightarrow> number \<Rightarrow> number" where
  "calculateAskPrice mid spreadBasisPoints =
     (let spreadDecimal = basisPointsToDecimal spreadBasisPoints
      in mid + (mid * spreadDecimal))"

definition calculateMaxDeviationAmount :: "number \<Rightarrow> number \<Rightarrow> number" where
  "calculateMaxDeviationAmount p deviationPercent = p * (deviationPercent / 100)"

definition calculatePriceDeviation :: "number \<Rightarrow> number \<Rightarrow> number" where
  "calculatePriceDeviation price1 price2 = \<bar>price1 - price2\<bar>"

definition calculateSpreadAmount :: "number \<Rightarrow> number \<Rightarrow> number" where
  "calculateSpreadAmount mid spreadBasisPoints =
     (let spreadDecimal = basisPointsToDecimal spreadBasisPoints
      in mid * spreadDecimal)"

section \<open>Risk evaluation (src/services/DeviationCheckService.ts)\<close>

text \<open>
  \<open>calculateMarketState\<close> reads the service's own configuration (\<open>this.config.assets\<close>,
  the result of \<open>loadConfig()\<close>) and the clock; both are parameters here. The spread is
  \<open>assetConfig?.spreadWidth || 10\<close>: the configured width of the first asset with that
  ticker, and 10 when there is none or when the width is falsy, which for a number is 0.
\<close>

definition projectionSpreadWidth :: "AssetConfig list \<Rightarrow> string \<Rightarrow> number" where
  "projectionSpreadWidth assets t =
     (case List.find (\<lambda>asset. config_ticker asset = t) assets of
        None \<Rightarrow> 10
      | Some assetConfig \<Rightarrow> if spreadWidth assetConfig \<noteq> 0 then spreadWidth assetConfig else 10)"

definition calculateMarketState ::
  "AssetConfig list \<Rightarrow> int \<Rightarrow> string \<Rightarrow> number \<Rightarrow> number \<Rightarrow> MarketState" where
  "calculateMarketState assets now t currentPrice maxDeviation =
     (let maxDev = calculateMaxDeviationAmount currentPrice maxDeviation;
          spreadWidthBp = projectionSpreadWidth assets t;
          spreadAmount = calculateSpreadAmount currentPrice spreadWidthBp
      in \<lparr> market_ticker = t,
           midPrice = currentPrice,
           bidPrice = currentPrice - spreadAmount / 2,
           askPrice = currentPrice + spreadAmount / 2,
           maxDeviationPrice = maxDev,
           market_timestamp = now \<rparr>)"

record Checks =
  shouldCancelBid :: bool
  shouldCancelAsk :: bool
  shouldClosePositions :: bool

text \<open>
  The four \<open>if\<close> blocks of \<open>checkOrdersAndPositions\<close>, in the source's order. Each flag
  starts false and is only ever set to true.
\<close>

definition orderDeviates :: "Order option \<Rightarrow> MarketState \<Rightarrow> bool" where
  "orderDeviates slot marketState =
     (case slot of
        None \<Rightarrow> False
      | Some ord \<Rightarrow>
          if status ord = Some ''NEW''
          then calculatePriceDeviation (price ord) (midPrice marketState) > maxDeviationPrice marketState
          else False)"

definition positionDeviates :: "Position option \<Rightarrow> MarketState \<Rightarrow> bool" where
  "positionDeviates slot marketState =
     (case slot of
        None \<Rightarrow> False
      | Some pos \<Rightarrow>
          calculatePriceDeviation (entryPrice pos) (midPrice marketState) > maxDeviationPrice marketState)"

definition checkOrdersAndPositions :: "TradingPair \<Rightarrow> MarketState \<Rightarrow> Checks" where
  "checkOrdersAndPositions tradingPair marketState =
     (let cancelBid = orderDeviates (bidOrder tradingPair) marketState;
          cancelAsk = orderDeviates (askOrder tradingPair) marketState;
          closeLong = positionDeviates (longPosition tradingPair) marketState;
          closeShort = positionDeviates (shortPosition tradingPair) marketState
      in \<lparr> shouldCancelBid = cancelBid,
           shouldCancelAsk = cancelAsk,
           shouldClosePositions = (closeLong \<or> closeShort) \<rparr>)"

section \<open>Requests, events and order utilities (src/types/orders.ts, orderUpdates.ts, orderUtils.ts)\<close>

datatype OrderType = LIMIT | MARKET

datatype TimeInForce = GTD | GTC | IOC | FOK

datatype TradeSide = BUY | SELL

record CreateOrderRequest =
  order_type :: OrderType
  request_quantity :: number
  request_side :: nat
  request_price :: "number option"
  request_ticker :: string
  client_order_id :: "string option"
  time_in_force :: TimeInForce
  expires_at :: "int option"

record CancelOrderRequest =
  order_ids :: "string list"
  subaccount :: string

record OrderUpdateEvent =
  event_id :: string
  event_status :: string

record PriceUpdate =
  update_ticker :: string
  update_price :: number
  confidence :: number
  update_timestamp :: int

definition generateExpiresAt :: "int \<Rightarrow> int \<Rightarrow> int" where
  "generateExpiresAt now minutesFromNow = now div 1000 + minutesFromNow * 60"

definition convertSideToNumber :: "TradeSide \<Rightarrow> nat" where
  "convertSideToNumber sd = (if sd = BUY then 0 else 1)"

text \<open>
  JavaScript truthiness of an optional string: \<open>undefined\<close> and the empty string are
  falsy. \<open>a || b\<close> on such values is \<open>orElse\<close>.
\<close>

definition truthy :: "string option \<Rightarrow> bool" where
  "truthy v = (case v of None \<Rightarrow> False | Some str \<Rightarrow> str \<noteq> [])"

definition orElse :: "string option \<Rightarrow> string option \<Rightarrow> string option" where
  "orElse a b = (if truthy a then a else b)"

text \<open>A template literal renders \<open>undefined\<close> as the word.\<close>

definition render :: "string option \<Rightarrow> string" where
  "render v = (case v of None \<Rightarrow> ''undefined'' | Some str \<Rightarrow> str)"

section \<open>The orchestrator (class PriceSnapshotService, second part of src/services/EtherealService.ts)\<close>

text \<open>
  The service runs on the JavaScript event loop. An \<open>async\<close> method runs until it awaits
  a call of the exchange adapter; the rest of the method runs when the adapter's promise
  settles, and timer ticks, order events and other responses are handled in between.
  A suspended method is kept as a value of type \<open>Suspended\<close> that holds the local
  variables its continuation reads. The adapter itself is outside the program: the
  requests it is given are recorded in \<open>sent\<close>, and how each call settles is an input.
\<close>

datatype Outcome = Rejected | Resolved "string option"

datatype Request = PlaceOrder CreateOrderRequest | CancelOrder CancelOrderRequest

datatype Suspended =
    AwaitBidCancel string string string Checks
  | AwaitAskCancel string string string
  | AwaitBidPlace string number AssetConfig bool CreateOrderRequest
  | AwaitAskPlace string CreateOrderRequest
  | AwaitBulkCancel "string list"

text \<open>
  \<open>AwaitBidCancel ticker orderId cancelKey checks\<close> is \<open>checkOrdersAndPositions\<close> waiting in
  \<open>cancelOrder(ticker, orderId, 'BID')\<close>; \<open>AwaitAskCancel ticker orderId cancelKey\<close> the same for
  the ask. \<open>AwaitBidPlace ticker currentPrice config needsAskOrder request\<close> is
  \<open>checkAndCreateOrders\<close> waiting in \<open>createBidOrder\<close>, \<open>AwaitAskPlace ticker request\<close> in
  \<open>createAskOrder\<close>. \<open>AwaitBulkCancel orderIds\<close> is \<open>cancelAllActiveOrders\<close> waiting for the bulk
  cancel. For a placement the payload of \<open>Resolved\<close> is \<open>response?.order?.id\<close>; for a cancel
  the response is not read.

  The fields of the class come first in the record; \<open>deviationCheckService\<close> holds the
  asset list of the injected risk service, \<open>etherealService\<close> says whether the adapter was
  injected, \<open>snapshotTimer\<close> whether the interval timer is set. Then the environment:
  the variable \<open>ETHEREAL_SUBACCOUNT\<close>, the suspended methods, the requests given to the
  adapter, the first arguments of the orchestrator's calls of \<open>console.error\<close>, and whether
  \<open>process.exit\<close> was called. The snapshot ring, the snapshot callback and
  \<open>console.log\<close> have no influence on orders and are left out.

  \<open>tradingPairs\<close> is a JavaScript \<open>Map\<close>: an association list in insertion order, read
  with \<open>map_of\<close> and written with \<open>AList.update\<close>, which replaces the value of a present key
  in place and appends an absent one.
\<close>

record PriceSnapshotService =
  latestPrices :: "(string \<times> PriceUpdate) list"
  tradingPairs :: "(string \<times> TradingPair) list"
  assetConfigs :: "(string \<times> AssetConfig) list"
  snapshotTimer :: bool
  deviationCheckService :: "AssetConfig list option"
  etherealService :: bool
  orderCreationInProgress :: "string set"
  orderCancellationInProgress :: "string set"
  ETHEREAL_SUBACCOUNT :: "string option"
  inFlight :: "Suspended list"
  sent :: "Request list"
  consoleError :: "string list"
  exited :: bool

definition emptyPair :: "string \<Rightarrow> TradingPair" where
  "emptyPair t = \<lparr> ticker = t, bidOrder = None, askOrder = None,
                   longPosition = None, shortPosition = None \<rparr>"

definition getPair :: "PriceSnapshotService \<Rightarrow> string \<Rightarrow> TradingPair option" where
  "getPair s t = map_of (tradingPairs s) t"

definition setPair :: "string \<Rightarrow> TradingPair \<Rightarrow> PriceSnapshotService \<Rightarrow> PriceSnapshotService" where
  "setPair t tp s = s\<lparr> tradingPairs := AList.update t tp (tradingPairs s) \<rparr>"

definition logError :: "string \<Rightarrow> PriceSnapshotService \<Rightarrow> PriceSnapshotService" where
  "logError msg s = s\<lparr> consoleError := consoleError s @ [msg] \<rparr>"

definition updatePrice :: "PriceUpdate \<Rightarrow> PriceSnapshotService \<Rightarrow> PriceSnapshotService" where
  "updatePrice priceUpdate s =
     s\<lparr> latestPrices := AList.update (update_ticker priceUpdate) priceUpdate (latestPrices s) \<rparr>"

subsection \<open>Reconciliation: \<open>updateOrderStatus\<close>\<close>

text \<open>
  One of the two blocks of the loop body, for the bid or for the ask slot: the new slot
  and whether \<open>orderUpdated\<close> was set. An empty slot never matches, since the event's id
  is a string.
\<close>

definition updateSlot :: "string \<Rightarrow> string \<Rightarrow> Order option \<Rightarrow> Order option \<times> bool" where
  "updateSlot orderId st slot =
     (case slot of
        None \<Rightarrow> (None, False)
      | Some ord \<Rightarrow>
          if order_id ord = orderId
          then (if st = ''CANCELED'' \<or> st = ''EXPIRED''
                then (None, True)
                else (Some (ord\<lparr> status := Some st \<rparr>), True))
          else (Some ord, False))"

text \<open>
  The loop over the entries of the map: both slots of an entry are tried, and the loop
  ends (\<open>break\<close>) after the first entry in which one of them matched.
\<close>

fun updatePairs :: "string \<Rightarrow> string \<Rightarrow> (string \<times> TradingPair) list \<Rightarrow> (string \<times> TradingPair) list" where
  "updatePairs orderId st [] = []"
| "updatePairs orderId st ((t, tradingPair) # rest) =
     (let (bid', bidUpdated) = updateSlot orderId st (bidOrder tradingPair);
          (ask', askUpdated) = updateSlot orderId st (askOrder tradingPair)
      in if bidUpdated \<or> askUpdated
         then (t, tradingPair\<lparr> bidOrder := bid', askOrder := ask' \<rparr>) # rest
         else (t, tradingPair) # updatePairs orderId st rest)"

definition updateOrderStatus :: "OrderUpdateEvent \<Rightarrow> PriceSnapshotService \<Rightarrow> PriceSnapshotService" where
  "updateOrderStatus orderUpdate s =
     s\<lparr> tradingPairs := updatePairs (event_id orderUpdate) (event_status orderUpdate) (tradingPairs s) \<rparr>"

subsection \<open>Shutdown: \<open>getAllActiveOrders\<close> and \<open>cancelAllActiveOrders\<close>\<close>

record ActiveOrder =
  active_ticker :: string
  orderId :: string
  active_side :: OrderSide

definition isActive :: "Order \<Rightarrow> bool" where
  "isActive ord \<longleftrightarrow>
     (status ord = Some ''NEW'' \<or> \<not> truthy (status ord)) \<and> \<not> prefix ''position-'' (order_id ord)"

definition activeSlot :: "string \<Rightarrow> OrderSide \<Rightarrow> Order option \<Rightarrow> ActiveOrder list" where
  "activeSlot t sd slot =
     (case slot of
        None \<Rightarrow> []
      | Some ord \<Rightarrow>
          if isActive ord
          then [\<lparr> active_ticker = t, orderId = order_id ord, active_side = sd \<rparr>]
          else [])"

fun activeOrdersOf :: "(string \<times> TradingPair) list \<Rightarrow> ActiveOrder list" where
  "activeOrdersOf [] = []"
| "activeOrdersOf ((t, tradingPair) # rest) =
     activeSlot t BID (bidOrder tradingPair) @ activeSlot t ASK (askOrder tradingPair)
     @ activeOrdersOf rest"

definition getAllActiveOrders :: "PriceSnapshotService \<Rightarrow> ActiveOrder list" where
  "getAllActiveOrders s = activeOrdersOf (tradingPairs s)"

definition clearAllOrders :: "(string \<times> TradingPair) list \<Rightarrow> (string \<times> TradingPair) list" where
  "clearAllOrders tps =
     map (\<lambda>(t, tradingPair). (t, tradingPair\<lparr> bidOrder := None, askOrder := None \<rparr>)) tps"

text \<open>
  \<open>cancelAllActiveOrders\<close> up to its \<open>await\<close>. The two early returns leave the state as it
  is (the second after a call of \<open>console.error\<close>). Otherwise both lock sets are emptied
  and the request is handed to the adapter; without an adapter the call throws inside
  the \<open>try\<close> and only the error is logged.
\<close>

definition cancelAllActiveOrders :: "PriceSnapshotService \<Rightarrow> PriceSnapshotService" where
  "cancelAllActiveOrders s =
     (let activeOrders = getAllActiveOrders s
      in if activeOrders = [] then s
         else if \<not> truthy (ETHEREAL_SUBACCOUNT s)
         then logError ''ETHEREAL_SUBACCOUNT not set, cannot cancel orders'' s
         else
           (let s1 = s\<lparr> orderCreationInProgress := {}, orderCancellationInProgress := {} \<rparr>;
                orderIds = map orderId activeOrders;
                cancelRequest = \<lparr> order_ids = orderIds,
                                  subaccount = the (ETHEREAL_SUBACCOUNT s) \<rparr>
            in if etherealService s1
               then s1\<lparr> sent := sent s1 @ [CancelOrder cancelRequest],
                        inFlight := inFlight s1 @ [AwaitBulkCancel orderIds] \<rparr>
               else logError ''Error cancelling orders during shutdown:'' s1))"

text \<open>The rest of \<open>cancelAllActiveOrders\<close>, once the bulk cancel has settled.\<close>

definition cancelAllActiveOrders_settled :: "Outcome \<Rightarrow> PriceSnapshotService \<Rightarrow> PriceSnapshotService" where
  "cancelAllActiveOrders_settled out s =
     (case out of
        Resolved response \<Rightarrow> s\<lparr> tradingPairs := clearAllOrders (tradingPairs s) \<rparr>
      | Rejected \<Rightarrow> logError ''Error cancelling orders during shutdown:'' s)"

subsection \<open>Position warmup: \<open>loadExistingPositions\<close>\<close>

text \<open>
  An element of the \<open>data\<close> array of the positions response, with the fields the method
  reads. The response is untyped; the fields are taken to be optional strings, as the
  exchange and the tests send them. \<open>parseFloat\<close> is a parameter: a function from strings
  to numbers.
\<close>

record RawPosition =
  raw_productId :: "string option"
  raw_productTicker :: "string option"
  raw_ticker :: "string option"
  raw_quantity :: "string option"
  raw_size :: "string option"
  raw_entryPrice :: "string option"
  raw_avgPrice :: "string option"

definition resolveTicker :: "(string \<times> AssetConfig) list \<Rightarrow> RawPosition \<Rightarrow> string option" where
  "resolveTicker configs position =
     (let pid = raw_productId position;
          t = orElse (raw_productTicker position) (raw_ticker position)
      in if \<not> truthy t \<and> truthy pid
         then (case List.find (\<lambda>config. productId config = pid) (map snd configs) of
                 None \<Rightarrow> None
               | Some assetConfig \<Rightarrow> Some (config_ticker assetConfig))
         else t)"

definition parsedQuantity :: "(string \<Rightarrow> number) \<Rightarrow> RawPosition \<Rightarrow> number" where
  "parsedQuantity parseFloat position =
     parseFloat (the (orElse (raw_quantity position) (orElse (raw_size position) (Some ''0''))))"

definition parsedEntryPrice :: "(string \<Rightarrow> number) \<Rightarrow> RawPosition \<Rightarrow> number" where
  "parsedEntryPrice parseFloat position =
     parseFloat (the (orElse (raw_entryPrice position) (orElse (raw_avgPrice position) (Some ''0''))))"

text \<open>
  The body of the loop over the positions; \<open>now\<close> is \<open>Date.now()\<close>, taken to give the same
  value for the position and for the order.
\<close>

definition loadPosition ::
  "(string \<Rightarrow> number) \<Rightarrow> int \<Rightarrow> RawPosition \<Rightarrow> PriceSnapshotService \<Rightarrow> PriceSnapshotService" where
  "loadPosition parseFloat now position s =
     (let t = resolveTicker (assetConfigs s) position
      in if \<not> truthy t then s
         else
           (let tk = the t;
                tradingPair = (case getPair s tk of None \<Rightarrow> emptyPair tk | Some tp \<Rightarrow> tp);
                qty = parsedQuantity parseFloat position;
                entry = parsedEntryPrice parseFloat position;
                tradingPair' =
                  (if qty > 0
                   then tradingPair
                     \<lparr> longPosition := Some \<lparr> position_ticker = tk, position_side = LONG,
                          position_quantity = \<bar>qty\<bar>, entryPrice = entry,
                          position_timestamp = now \<rparr>,
                       bidOrder := Some \<lparr> order_id = ''position-bid-'' @ render (raw_productId position),
                          order_ticker = tk, order_side = BID, price = entry, quantity = \<bar>qty\<bar>,
                          quantityFilled = \<bar>qty\<bar>, status = Some ''FILLED'',
                          order_timestamp = now \<rparr> \<rparr>
                   else if qty < 0
                   then tradingPair
                     \<lparr> shortPosition := Some \<lparr> position_ticker = tk, position_side = SHORT,
                          position_quantity = \<bar>qty\<bar>, entryPrice = entry,
                          position_timestamp = now \<rparr>,
                       askOrder := Some \<lparr> order_id = ''position-ask-'' @ render (raw_productId position),
                          order_ticker = tk, order_side = ASK, price = entry, quantity = \<bar>qty\<bar>,
                          quantityFilled = \<bar>qty\<bar>, status = Some ''FILLED'',
                          order_timestamp = now \<rparr> \<rparr>
                   else tradingPair)
            in setPair tk tradingPair' s))"

text \<open>
  The method itself. The positions query either throws (\<open>Rejected\<close>, logged) or yields a
  response whose \<open>data\<close> array is present or not.
\<close>

datatype PositionsOutcome = PositionsRejected | PositionsResolved "RawPosition list option"

definition loadExistingPositions ::
  "(string \<Rightarrow> number) \<Rightarrow> int \<Rightarrow> PositionsOutcome \<Rightarrow> PriceSnapshotService \<Rightarrow> PriceSnapshotService" where
  "loadExistingPositions parseFloat now out s =
     (if \<not> etherealService s
      then logError ''EtherealService not set, cannot fetch positions'' s
      else (case out of
              PositionsRejected \<Rightarrow> logError ''Error loading existing positions:'' s
            | PositionsResolved None \<Rightarrow> s
            | PositionsResolved (Some positions) \<Rightarrow>
                fold (loadPosition parseFloat now) positions s))"

subsection \<open>Cancellation on deviation: \<open>checkOrdersAndPositions\<close> and \<open>cancelOrder\<close>\<close>

definition clearSide :: "OrderSide \<Rightarrow> string \<Rightarrow> PriceSnapshotService \<Rightarrow> PriceSnapshotService" where
  "clearSide sd t s =
     (case getPair s t of
        None \<Rightarrow> s
      | Some tradingPair \<Rightarrow>
          setPair t (if sd = BID then tradingPair\<lparr> bidOrder := None \<rparr>
                     else tradingPair\<lparr> askOrder := None \<rparr>) s)"

definition sideName :: "OrderSide \<Rightarrow> string" where
  "sideName sd = (if sd = BID then ''bid'' else ''ask'')"

text \<open>
  \<open>cancelOrder\<close> once the adapter's call has settled: the slot is cleared on success and
  the error is logged on failure.
\<close>

definition cancelOrder_settled ::
  "string \<Rightarrow> string \<Rightarrow> OrderSide \<Rightarrow> Outcome \<Rightarrow> PriceSnapshotService \<Rightarrow> PriceSnapshotService" where
  "cancelOrder_settled t oid sd out s =
     (case out of
        Resolved response \<Rightarrow> clearSide sd t s
      | Rejected \<Rightarrow>
          logError (''['' @ t @ ''] Error cancelling '' @ sideName sd @ '' order '' @ oid @ '':'') s)"

definition releaseCancel :: "string \<Rightarrow> PriceSnapshotService \<Rightarrow> PriceSnapshotService" where
  "releaseCancel cancelKey s =
     s\<lparr> orderCancellationInProgress := orderCancellationInProgress s - {cancelKey} \<rparr>"

text \<open>
  The second \<open>if\<close> block of \<open>checkOrdersAndPositions\<close>, for the ask. It reads the flag
  computed at the start of the method and the ask slot as it is now: \<open>tradingPair\<close> is the
  object kept in the map, which the steps modelled here change in place and never
  replace. Without a subaccount \<open>cancelOrder\<close> logs and returns with nothing awaited; the
  \<open>finally\<close> and what follows it then run at the end of the same turn of the event loop,
  before any other timer tick, event or response, and are modelled in place: the key is
  not entered into the set at all. In the source it is in the set until the end of the
  turn, which nothing else in the turn reads unless another instrument, side and order id
  happen to give the same key string.
\<close>

definition checkAsk :: "string \<Rightarrow> Checks \<Rightarrow> PriceSnapshotService \<Rightarrow> PriceSnapshotService" where
  "checkAsk t checks s =
     (case getPair s t of
        None \<Rightarrow> s
      | Some tradingPair \<Rightarrow>
          (case askOrder tradingPair of
             None \<Rightarrow> s
           | Some ask \<Rightarrow>
               if \<not> shouldCancelAsk checks then s
               else
                 (let cancelKey = t @ ''-ask-'' @ order_id ask
                  in if cancelKey \<in> orderCancellationInProgress s then s
                     else if \<not> truthy (ETHEREAL_SUBACCOUNT s)
                     then logError ''ETHEREAL_SUBACCOUNT not set, cannot cancel order'' s
                     else s\<lparr> orderCancellationInProgress :=
                                insert cancelKey (orderCancellationInProgress s),
                              sent := sent s @ [CancelOrder \<lparr> order_ids = [order_id ask],
                                         subaccount = the (ETHEREAL_SUBACCOUNT s) \<rparr>],
                              inFlight := inFlight s @ [AwaitAskCancel t (order_id ask) cancelKey] \<rparr>)))"

text \<open>
  The first \<open>if\<close> block, for the bid. When it sends a cancel the method is suspended and
  the ask block runs after the response; in every other case the ask block follows at
  once.
\<close>

definition checkBid :: "string \<Rightarrow> Checks \<Rightarrow> PriceSnapshotService \<Rightarrow> PriceSnapshotService" where
  "checkBid t checks s =
     (case getPair s t of
        None \<Rightarrow> s
      | Some tradingPair \<Rightarrow>
          (case bidOrder tradingPair of
             None \<Rightarrow> checkAsk t checks s
           | Some bid \<Rightarrow>
               if \<not> shouldCancelBid checks then checkAsk t checks s
               else
                 (let cancelKey = t @ ''-bid-'' @ order_id bid
                  in if cancelKey \<in> orderCancellationInProgress s then checkAsk t checks s
                     else if \<not> truthy (ETHEREAL_SUBACCOUNT s)
                     then checkAsk t checks
                            (logError ''ETHEREAL_SUBACCOUNT not set, cannot cancel order'' s)
                     else s\<lparr> orderCancellationInProgress :=
                                insert cancelKey (orderCancellationInProgress s),
                              sent := sent s @ [CancelOrder \<lparr> order_ids = [order_id bid],
                                         subaccount = the (ETHEREAL_SUBACCOUNT s) \<rparr>],
                              inFlight := inFlight s
                                @ [AwaitBidCancel t (order_id bid) cancelKey checks] \<rparr>)))"

text \<open>The method of the orchestrator, up to its first \<open>await\<close>.\<close>

definition checkOrdersAndPositions_service ::
  "string \<Rightarrow> number \<Rightarrow> int \<Rightarrow> PriceSnapshotService \<Rightarrow> PriceSnapshotService" where
  "checkOrdersAndPositions_service t currentPrice now s =
     (case deviationCheckService s of
        None \<Rightarrow> s
      | Some assets \<Rightarrow>
          if \<not> etherealService s then s
          else (case getPair s t of
                  None \<Rightarrow> s
                | Some tradingPair \<Rightarrow>
                    (case map_of (assetConfigs s) t of
                       None \<Rightarrow> s
                     | Some assetConfig \<Rightarrow>
                         (let maxDeviation = maxPriceDeviation assetConfig;
                              marketState = calculateMarketState assets now t currentPrice maxDeviation;
                              checks = checkOrdersAndPositions tradingPair marketState
                          in checkBid t checks s))))"

subsection \<open>Placement: \<open>checkAndCreateOrders\<close>, \<open>createBidOrder\<close>, \<open>createAskOrder\<close>\<close>

definition effectiveTickSize :: "AssetConfig \<Rightarrow> number" where
  "effectiveTickSize config =
     (case tickSize config of None \<Rightarrow> 1 | Some tick \<Rightarrow> if tick \<noteq> 0 then tick else 1)"

definition bidOrderRequest :: "string \<Rightarrow> number \<Rightarrow> AssetConfig \<Rightarrow> int \<Rightarrow> CreateOrderRequest" where
  "bidOrderRequest t currentPrice config now =
     (let bidPrice = calculateBidPrice currentPrice (spreadWidth config);
          tick = effectiveTickSize config
      in \<lparr> order_type = LIMIT,
           request_quantity = orderSize config,
           request_side = convertSideToNumber BUY,
           request_price = Some (roundToTickSize bidPrice tick),
           request_ticker = t,
           client_order_id = None,
           time_in_force = GTD,
           expires_at = Some (generateExpiresAt now 5) \<rparr>)"

definition askOrderRequest :: "string \<Rightarrow> number \<Rightarrow> AssetConfig \<Rightarrow> int \<Rightarrow> CreateOrderRequest" where
  "askOrderRequest t currentPrice config now =
     (let askPrice = calculateAskPrice currentPrice (spreadWidth config);
          tick = effectiveTickSize config
      in \<lparr> order_type = LIMIT,
           request_quantity = orderSize config,
           request_side = convertSideToNumber SELL,
           request_price = Some (roundToTickSize askPrice tick),
           request_ticker = t,
           client_order_id = None,
           time_in_force = GTD,
           expires_at = Some (generateExpiresAt now 5) \<rparr>)"

text \<open>
  The order a successful placement stores: built from the request when the response
  carries a truthy \<open>order.id\<close>.
\<close>

definition placedOrder :: "string \<Rightarrow> string \<Rightarrow> OrderSide \<Rightarrow> CreateOrderRequest \<Rightarrow> int \<Rightarrow> Order" where
  "placedOrder oid t sd request now =
     \<lparr> order_id = oid, order_ticker = t, order_side = sd,
       price = the (request_price request), quantity = request_quantity request,
       quantityFilled = 0, status = Some ''NEW'', order_timestamp = now \<rparr>"

definition installOrder ::
  "string \<Rightarrow> OrderSide \<Rightarrow> CreateOrderRequest \<Rightarrow> string option \<Rightarrow> int \<Rightarrow>
   PriceSnapshotService \<Rightarrow> PriceSnapshotService" where
  "installOrder t sd request response now s =
     (if truthy response
      then (let tradingPair = (case getPair s t of None \<Rightarrow> emptyPair t | Some tp \<Rightarrow> tp);
                ord = placedOrder (the response) t sd request now
            in setPair t (if sd = BID then tradingPair\<lparr> bidOrder := Some ord \<rparr>
                          else tradingPair\<lparr> askOrder := Some ord \<rparr>) s)
      else s)"

definition releaseCreation :: "string \<Rightarrow> PriceSnapshotService \<Rightarrow> PriceSnapshotService" where
  "releaseCreation t s = s\<lparr> orderCreationInProgress := orderCreationInProgress s - {t} \<rparr>"

text \<open>\<open>createAskOrder\<close> up to the adapter's call.\<close>

definition createAskOrder ::
  "string \<Rightarrow> number \<Rightarrow> AssetConfig \<Rightarrow> int \<Rightarrow> PriceSnapshotService \<Rightarrow> PriceSnapshotService" where
  "createAskOrder t currentPrice config now s =
     (let askOrder = askOrderRequest t currentPrice config now
      in s\<lparr> sent := sent s @ [PlaceOrder askOrder],
            inFlight := inFlight s @ [AwaitAskPlace t askOrder] \<rparr>)"

definition createBidOrder ::
  "string \<Rightarrow> number \<Rightarrow> AssetConfig \<Rightarrow> bool \<Rightarrow> int \<Rightarrow> PriceSnapshotService \<Rightarrow> PriceSnapshotService" where
  "createBidOrder t currentPrice config needsAskOrder now s =
     (let bidOrder = bidOrderRequest t currentPrice config now
      in s\<lparr> sent := sent s @ [PlaceOrder bidOrder],
            inFlight := inFlight s @ [AwaitBidPlace t currentPrice config needsAskOrder bidOrder] \<rparr>)"

text \<open>
  \<open>checkAndCreateOrders\<close> up to its first \<open>await\<close>: the three early returns, then the lock
  and the first placement of the round.
\<close>

definition checkAndCreateOrders ::
  "string \<Rightarrow> number \<Rightarrow> int \<Rightarrow> PriceSnapshotService \<Rightarrow> PriceSnapshotService" where
  "checkAndCreateOrders t currentPrice now s =
     (if \<not> etherealService s then s
      else (case map_of (assetConfigs s) t of
              None \<Rightarrow> s
            | Some assetConfig \<Rightarrow>
                if t \<in> orderCreationInProgress s then s
                else
                  (let tradingPair = (case getPair s t of None \<Rightarrow> emptyPair t | Some tp \<Rightarrow> tp);
                       needsBidOrder = (bidOrder tradingPair = None);
                       needsAskOrder = (askOrder tradingPair = None)
                   in if needsBidOrder \<or> needsAskOrder
                      then (let s1 = s\<lparr> orderCreationInProgress :=
                                          insert t (orderCreationInProgress s) \<rparr>
                            in if needsBidOrder
                               then createBidOrder t currentPrice assetConfig needsAskOrder now s1
                               else createAskOrder t currentPrice assetConfig now s1)
                      else s)))"

text \<open>
  The rest of the round after the bid placement has settled. A rejection is caught by
  the \<open>catch\<close> of \<open>checkAndCreateOrders\<close>, which skips the ask; the \<open>finally\<close> releases the
  lock at the end of the round.
\<close>

definition bidPlace_settled ::
  "string \<Rightarrow> number \<Rightarrow> AssetConfig \<Rightarrow> bool \<Rightarrow> CreateOrderRequest \<Rightarrow> Outcome \<Rightarrow> int \<Rightarrow>
   PriceSnapshotService \<Rightarrow> PriceSnapshotService" where
  "bidPlace_settled t currentPrice config needsAskOrder request out now s =
     (case out of
        Rejected \<Rightarrow> releaseCreation t (logError (''['' @ t @ ''] Error creating orders:'') s)
      | Resolved response \<Rightarrow>
          (let s1 = installOrder t BID request response now s
           in if needsAskOrder then createAskOrder t currentPrice config now s1
              else releaseCreation t s1))"

definition askPlace_settled ::
  "string \<Rightarrow> CreateOrderRequest \<Rightarrow> Outcome \<Rightarrow> int \<Rightarrow> PriceSnapshotService \<Rightarrow> PriceSnapshotService" where
  "askPlace_settled t request out now s =
     (case out of
        Rejected \<Rightarrow> releaseCreation t (logError (''['' @ t @ ''] Error creating orders:'') s)
      | Resolved response \<Rightarrow> releaseCreation t (installOrder t ASK request response now s))"

subsection \<open>Paired-fill cleanup and the cadence tick\<close>

definition isFilled :: "Order option \<Rightarrow> bool" where
  "isFilled slot = (case slot of None \<Rightarrow> False | Some ord \<Rightarrow> status ord = Some ''FILLED'')"

definition cleanupCompletedTradingPairs :: "string \<Rightarrow> PriceSnapshotService \<Rightarrow> PriceSnapshotService" where
  "cleanupCompletedTradingPairs t s =
     (case getPair s t of
        None \<Rightarrow> s
      | Some tradingPair \<Rightarrow>
          (let bidFilled = isFilled (bidOrder tradingPair);
               askFilled = isFilled (askOrder tradingPair)
           in if bidFilled \<and> askFilled
              then setPair t (tradingPair\<lparr> bidOrder := None, askOrder := None \<rparr>) s
              else s))"

text \<open>The body of the loop of \<open>takeSnapshot\<close> for one entry of \<open>latestPrices\<close>.\<close>

definition snapshotTicker :: "int \<Rightarrow> string \<times> PriceUpdate \<Rightarrow> PriceSnapshotService \<Rightarrow> PriceSnapshotService" where
  "snapshotTicker now entry s =
     (let t = fst entry; currentPrice = update_price (snd entry);
          s1 = checkOrdersAndPositions_service t currentPrice now s;
          s2 = checkAndCreateOrders t currentPrice now s1
      in cleanupCompletedTradingPairs t s2)"

definition takeSnapshot :: "int \<Rightarrow> PriceSnapshotService \<Rightarrow> PriceSnapshotService" where
  "takeSnapshot now s = fold (snapshotTicker now) (latestPrices s) s"

subsection \<open>The event loop\<close>

text \<open>
  What can happen to the running service: the oracle delivers a price, the timer fires
  at time \<open>now\<close>, the event stream delivers an order update, the adapter settles the call
  at position \<open>i\<close> of \<open>inFlight\<close> at time \<open>now\<close>, or a termination signal arrives. Each is
  one turn of the event loop: the callback and the continuations it wakes run until every
  method is finished or suspended in a call of the adapter, and nothing else runs in
  between. The calls in flight settle in any order and either way. The signal
  handler of \<open>src/index.ts\<close> stops the timer, runs \<open>cancelAllActiveOrders\<close> and then exits
  the process: at once when nothing was awaited, after the bulk cancel has settled
  otherwise.
\<close>

datatype Action =
    Price PriceUpdate
  | Tick int
  | OrderUpdate OrderUpdateEvent
  | Settle nat Outcome int
  | Shutdown

definition resume :: "Suspended \<Rightarrow> Outcome \<Rightarrow> int \<Rightarrow> PriceSnapshotService \<Rightarrow> PriceSnapshotService" where
  "resume k out now s =
     (case k of
        AwaitBidCancel t oid cancelKey checks \<Rightarrow>
          checkAsk t checks (releaseCancel cancelKey (cancelOrder_settled t oid BID out s))
      | AwaitAskCancel t oid cancelKey \<Rightarrow>
          releaseCancel cancelKey (cancelOrder_settled t oid ASK out s)
      | AwaitBidPlace t currentPrice config needsAskOrder request \<Rightarrow>
          bidPlace_settled t currentPrice config needsAskOrder request out now s
      | AwaitAskPlace t request \<Rightarrow> askPlace_settled t request out now s
      | AwaitBulkCancel orderIds \<Rightarrow> (cancelAllActiveOrders_settled out s)\<lparr> exited := True \<rparr>)"

definition dropAt :: "nat \<Rightarrow> 'a list \<Rightarrow> 'a list" where
  "dropAt i xs = take i xs @ drop (Suc i) xs"

definition shutdown :: "PriceSnapshotService \<Rightarrow> PriceSnapshotService" where
  "shutdown s =
     (let s1 = cancelAllActiveOrders (s\<lparr> snapshotTimer := False \<rparr>)
      in if length (inFlight s1) = length (inFlight s) then s1\<lparr> exited := True \<rparr> else s1)"

definition step :: "Action \<Rightarrow> PriceSnapshotService \<Rightarrow> PriceSnapshotService" where
  "step a s =
     (if exited s then s
      else (case a of
              Price priceUpdate \<Rightarrow> updatePrice priceUpdate s
            | Tick now \<Rightarrow> if snapshotTimer s then takeSnapshot now s else s
            | OrderUpdate orderUpdate \<Rightarrow> updateOrderStatus orderUpdate s
            | Settle i out now \<Rightarrow>
                if i < length (inFlight s)
                then resume (inFlight s ! i) out now (s\<lparr> inFlight := dropAt i (inFlight s) \<rparr>)
                else s
            | Shutdown \<Rightarrow> shutdown s))"

definition run :: "Action list \<Rightarrow> PriceSnapshotService \<Rightarrow> PriceSnapshotService" where
  "run actions s = fold step actions s"

section \<open>Vocabulary of the properties\<close>

text \<open>A slot holds an order with a given id; a trading pair does so in one of its slots.\<close>

definition slotHolds :: "string \<Rightarrow> Order option \<Rightarrow> bool" where
  "slotHolds oid slot = (case slot of None \<Rightarrow> False | Some ord \<Rightarrow> order_id ord = oid)"

definition pairHolds :: "string \<Rightarrow> TradingPair \<Rightarrow> bool" where
  "pairHolds oid tradingPair \<longleftrightarrow>
     slotHolds oid (bidOrder tradingPair) \<or> slotHolds oid (askOrder tradingPair)"

definition terminal :: "string \<Rightarrow> bool" where
  "terminal st \<longleftrightarrow> st = ''CANCELED'' \<or> st = ''EXPIRED''"

definition withStatus :: "string \<Rightarrow> Order option \<Rightarrow> Order option" where
  "withStatus st slot = map_option (\<lambda>ord. ord\<lparr> status := Some st \<rparr>) slot"

text \<open>
  The orders held in the slots of the trading pairs, in the order of the map, the bid of
  a pair before its ask; and the orders the shutdown is to cancel: the id does not start
  with \<open>position-\<close> and the status is \<open>NEW\<close> or missing, where a missing status is
  \<open>undefined\<close> or the empty string.
\<close>

definition slotOrders :: "(string \<times> TradingPair) list \<Rightarrow> Order list" where
  "slotOrders tps =
     concat (map (\<lambda>(t, tradingPair). (case bidOrder tradingPair of None \<Rightarrow> [] | Some b \<Rightarrow> [b])
                                      @ (case askOrder tradingPair of None \<Rightarrow> [] | Some a \<Rightarrow> [a])) tps)"

definition liveOrder :: "Order \<Rightarrow> bool" where
  "liveOrder ord \<longleftrightarrow>
     \<not> prefix ''position-'' (order_id ord)
     \<and> (status ord = Some ''NEW'' \<or> status ord = None \<or> status ord = Some [])"

definition slotsEmpty :: "(string \<times> TradingPair) list \<Rightarrow> bool" where
  "slotsEmpty tps = list_all (\<lambda>(t, tradingPair). bidOrder tradingPair = None
                                                  \<and> askOrder tradingPair = None) tps"

text \<open>
  What is in flight: the instrument of a suspended placement round, and the key of a
  suspended deviation cancel, which the source builds from the instrument, the side and
  the order id.
\<close>

fun placementOf :: "Suspended \<Rightarrow> string option" where
  "placementOf (AwaitBidPlace t currentPrice config needsAskOrder request) = Some t"
| "placementOf (AwaitAskPlace t request) = Some t"
| "placementOf k = None"

fun cancelKeyOf :: "Suspended \<Rightarrow> string option" where
  "cancelKeyOf (AwaitBidCancel t oid cancelKey checks) = Some cancelKey"
| "cancelKeyOf (AwaitAskCancel t oid cancelKey) = Some cancelKey"
| "cancelKeyOf k = None"

definition placementsInFlight :: "string \<Rightarrow> PriceSnapshotService \<Rightarrow> Suspended list" where
  "placementsInFlight t s = filter (\<lambda>k. placementOf k = Some t) (inFlight s)"

definition cancelsInFlight :: "string \<Rightarrow> PriceSnapshotService \<Rightarrow> Suspended list" where
  "cancelsInFlight cancelKey s = filter (\<lambda>k. cancelKeyOf k = Some cancelKey) (inFlight s)"

subsection \<open>Single flight\<close>

text \<open>
  The invariant of the placement lock: no instrument has more than one placement round
  in flight, and while the timer runs an instrument with a round in flight is in
  \<open>orderCreationInProgress\<close>. The invariant of the cancel lock: no key has more than one
  deviation cancel in flight, and a key with a cancel in flight is in
  \<open>orderCancellationInProgress\<close>.
\<close>

definition placeInv :: "PriceSnapshotService \<Rightarrow> bool" where
  "placeInv s \<longleftrightarrow>
     (\<forall>t. length (placementsInFlight t s) \<le> 1)
     \<and> (snapshotTimer s \<longrightarrow> (\<forall>t. placementsInFlight t s \<noteq> [] \<longrightarrow> t \<in> orderCreationInProgress s))"

definition cancelInv :: "PriceSnapshotService \<Rightarrow> bool" where
  "cancelInv s \<longleftrightarrow>
     (\<forall>key. length (cancelsInFlight key s) \<le> 1
            \<and> (cancelsInFlight key s \<noteq> [] \<longrightarrow> key \<in> orderCancellationInProgress s))"

text \<open>
  How one function of the orchestrator may change the fields these invariants read: not
  at all, by one more deviation cancel under a key that was free, or by one more placement
  round for an instrument that was free.
\<close>

definition sameControl :: "PriceSnapshotService \<Rightarrow> PriceSnapshotService \<Rightarrow> bool" where
  "sameControl s s' \<longleftrightarrow> inFlight s' = inFlight s
     \<and> orderCreationInProgress s' = orderCreationInProgress s
     \<and> orderCancellationInProgress s' = orderCancellationInProgress s
     \<and> snapshotTimer s' = snapshotTimer s"

definition addsCancel :: "PriceSnapshotService \<Rightarrow> PriceSnapshotService \<Rightarrow> bool" where
  "addsCancel s s' \<longleftrightarrow>
     (\<exists>k key. cancelKeyOf k = Some key \<and> placementOf k = None
        \<and> key \<notin> orderCancellationInProgress s
        \<and> inFlight s' = inFlight s @ [k]
        \<and> orderCancellationInProgress s' = insert key (orderCancellationInProgress s)
        \<and> orderCreationInProgress s' = orderCreationInProgress s
        \<and> snapshotTimer s' = snapshotTimer s)"

definition addsPlacement :: "PriceSnapshotService \<Rightarrow> PriceSnapshotService \<Rightarrow> bool" where
  "addsPlacement s s' \<longleftrightarrow>
     (\<exists>k t. placementOf k = Some t \<and> cancelKeyOf k = None
        \<and> t \<notin> orderCreationInProgress s
        \<and> inFlight s' = inFlight s @ [k]
        \<and> orderCreationInProgress s' = insert t (orderCreationInProgress s)
        \<and> orderCancellationInProgress s' = orderCancellationInProgress s
        \<and> snapshotTimer s' = snapshotTimer s)"


subsection \<open>Synthetic position orders\<close>

text \<open>
  An order id of the warmup starts with \<open>position-\<close>; a synthetic position order has such
  an id and the status \<open>FILLED\<close>. A slot is seeded when the order in it, if it has a
  position id, is synthetic, and clean when the order in it, if any, has no position id.
\<close>

definition positionId :: "string \<Rightarrow> bool" where
  "positionId oid = prefix ''position-'' oid"

definition synthetic :: "Order \<Rightarrow> bool" where
  "synthetic ord \<longleftrightarrow> positionId (order_id ord) \<and> status ord = Some ''FILLED''"

definition slotSeeded :: "Order option \<Rightarrow> bool" where
  "slotSeeded slot = (case slot of None \<Rightarrow> True
                      | Some ord \<Rightarrow> positionId (order_id ord) \<longrightarrow> status ord = Some ''FILLED'')"

definition slotClean :: "Order option \<Rightarrow> bool" where
  "slotClean slot = (case slot of None \<Rightarrow> True | Some ord \<Rightarrow> \<not> positionId (order_id ord))"

definition seeded :: "PriceSnapshotService \<Rightarrow> bool" where
  "seeded s \<longleftrightarrow> (\<forall>p \<in> set (tradingPairs s). slotSeeded (bidOrder (snd p)) \<and> slotSeeded (askOrder (snd p)))"

definition askClean :: "PriceSnapshotService \<Rightarrow> string \<Rightarrow> bool" where
  "askClean s t = (case getPair s t of None \<Rightarrow> True | Some tp \<Rightarrow> slotClean (askOrder tp))"

definition bidClean :: "PriceSnapshotService \<Rightarrow> string \<Rightarrow> bool" where
  "bidClean s t = (case getPair s t of None \<Rightarrow> True | Some tp \<Rightarrow> slotClean (bidOrder tp))"

text \<open>
  A suspended bid cancel carries the flags of the risk check that started it, and its
  continuation cancels the ask on the strength of the old flag: the flag may only be set
  when the ask slot is clean. A request is clean when it names no position id: a placement
  carries no order id of the client's, and a cancel lists none. An action of the exchange
  is well behaved when it names no position id, neither in an order update nor as the
  id of a placed order.
\<close>

fun staleAskClean :: "PriceSnapshotService \<Rightarrow> Suspended \<Rightarrow> bool" where
  "staleAskClean s (AwaitBidCancel t oid cancelKey checks) = (shouldCancelAsk checks \<longrightarrow> askClean s t)"
| "staleAskClean s k = True"

fun cleanRequest :: "Request \<Rightarrow> bool" where
  "cleanRequest (PlaceOrder request) = (client_order_id request = None)"
| "cleanRequest (CancelOrder request) = (\<forall>oid \<in> set (order_ids request). \<not> positionId oid)"

fun exchangeAction :: "Action \<Rightarrow> bool" where
  "exchangeAction (OrderUpdate orderUpdate) = (\<not> positionId (event_id orderUpdate))"
| "exchangeAction (Settle i (Resolved (Some oid)) now) = (\<not> positionId oid)"
| "exchangeAction a = True"

definition keepsOut :: "PriceSnapshotService \<Rightarrow> bool" where
  "keepsOut s \<longleftrightarrow> seeded s \<and> (\<forall>k \<in> set (inFlight s). staleAskClean s k)
                  \<and> (\<forall>request \<in> set (sent s). cleanRequest request)"

text \<open>A change of the state that puts no position id into a slot and sends nothing.\<close>

definition onlyShrinks :: "PriceSnapshotService \<Rightarrow> PriceSnapshotService \<Rightarrow> bool" where
  "onlyShrinks s s' \<longleftrightarrow> (seeded s \<longrightarrow> seeded s') \<and> (\<forall>t. askClean s t \<longrightarrow> askClean s' t)
     \<and> inFlight s' = inFlight s \<and> sent s' = sent s"


section \<open>Example data\<close>

text \<open>
  Concrete orders, trading pairs, market states, configurations, positions and services, on
  which the properties below are evaluated.
\<close>

definition exampleBid :: Order where
  "exampleBid = \<lparr> order_id = ''B1'', order_ticker = ''BTCUSD'', order_side = BID, price = 49950,
     quantity = 1 / 1000, quantityFilled = 0, status = Some ''NEW'', order_timestamp = 0 \<rparr>"

definition exampleAsk :: Order where
  "exampleAsk = \<lparr> order_id = ''A1'', order_ticker = ''BTCUSD'', order_side = ASK, price = 53050,
     quantity = 1 / 1000, quantityFilled = 0, status = Some ''NEW'', order_timestamp = 0 \<rparr>"

definition examplePair :: TradingPair where
  "examplePair = \<lparr> ticker = ''BTCUSD'', bidOrder = Some exampleBid, askOrder = Some exampleAsk,
     longPosition = None, shortPosition = None \<rparr>"

definition exampleMarket :: "number \<Rightarrow> MarketState" where
  "exampleMarket maxDev = \<lparr> market_ticker = ''BTCUSD'', midPrice = 53000, bidPrice = 52973.5,
     askPrice = 53026.5, maxDeviationPrice = maxDev, market_timestamp = 0 \<rparr>"

definition exampleConfig :: "number \<Rightarrow> AssetConfig" where
  "exampleConfig bp = \<lparr> config_ticker = ''BTCUSD'', orderSize = 1 / 1000, spreadWidth = bp,
     maxPriceDeviation = 5, tickSize = Some 1, minQuantity = None, maxQuantity = None,
     productId = Some ''BTCUSD_PERP'' \<rparr>"

definition exampleService :: "(string \<times> TradingPair) list \<Rightarrow> PriceSnapshotService" where
  "exampleService tps = \<lparr> latestPrices = [], tradingPairs = tps,
     assetConfigs = [(''BTCUSD'', exampleConfig 10)], snapshotTimer = True,
     deviationCheckService = Some [exampleConfig 10], etherealService = True,
     orderCreationInProgress = {}, orderCancellationInProgress = {},
     ETHEREAL_SUBACCOUNT = Some ''main'', inFlight = [], sent = [], consoleError = [],
     exited = False \<rparr>"

definition twinPair :: TradingPair where
  "twinPair = \<lparr> ticker = ''BTCUSD'', bidOrder = Some (exampleBid\<lparr> order_id := ''X'' \<rparr>),
     askOrder = Some (exampleAsk\<lparr> order_id := ''X'' \<rparr>), longPosition = None,
     shortPosition = None \<rparr>"

definition etherPair :: TradingPair where
  "etherPair = \<lparr> ticker = ''ETHUSD'', bidOrder = None,
     askOrder = Some (exampleAsk\<lparr> order_id := ''B1'', order_ticker := ''ETHUSD'' \<rparr>),
     longPosition = None, shortPosition = None \<rparr>"

definition syntheticAsk :: Order where
  "syntheticAsk = \<lparr> order_id = ''position-ask-ETHUSD_PERP'', order_ticker = ''ETHUSD'',
     order_side = ASK, price = 3000, quantity = 2, quantityFilled = 2,
     status = Some ''FILLED'', order_timestamp = 0 \<rparr>"

definition shortPair :: TradingPair where
  "shortPair = \<lparr> ticker = ''ETHUSD'', bidOrder = None, askOrder = Some syntheticAsk,
     longPosition = None,
     shortPosition = Some \<lparr> position_ticker = ''ETHUSD'', position_side = SHORT,
       position_quantity = 2, entryPrice = 3000, position_timestamp = 0 \<rparr> \<rparr>"

definition filledPair :: TradingPair where
  "filledPair = \<lparr> ticker = ''BTCUSD'', bidOrder = Some (exampleBid\<lparr> status := Some ''FILLED'' \<rparr>),
     askOrder = None, longPosition = None, shortPosition = None \<rparr>"

definition exampleParse :: "string \<Rightarrow> number" where
  "exampleParse str =
     (if str = ''0.005'' then 5 / 1000
      else if str = ''45000'' then 45000
      else if str = ''-2'' then - 2
      else if str = ''3000'' then 3000
      else 0)"

definition examplePosition :: "string option \<Rightarrow> string \<Rightarrow> string \<Rightarrow> RawPosition" where
  "examplePosition pid qty entry = \<lparr> raw_productId = pid, raw_productTicker = None,
     raw_ticker = None, raw_quantity = Some qty, raw_size = None, raw_entryPrice = Some entry,
     raw_avgPrice = None \<rparr>"

definition btcPrice :: "number \<Rightarrow> PriceUpdate" where
  "btcPrice p = \<lparr> update_ticker = ''BTCUSD'', update_price = p, confidence = 5,
     update_timestamp = 0 \<rparr>"

definition seededPair :: TradingPair where
  "seededPair = \<lparr> ticker = ''BTCUSD'', bidOrder = Some exampleBid,
     askOrder = Some \<lparr> order_id = ''position-ask-BTCUSD_PERP'', order_ticker = ''BTCUSD'',
       order_side = ASK, price = 45000, quantity = 2, quantityFilled = 2,
       status = Some ''FILLED'', order_timestamp = 0 \<rparr>,
     longPosition = None,
     shortPosition = Some \<lparr> position_ticker = ''BTCUSD'', position_side = SHORT,
       position_quantity = 2, entryPrice = 45000, position_timestamp = 0 \<rparr> \<rparr>"

definition positionEvent :: "string \<Rightarrow> OrderUpdateEvent" where
  "positionEvent st = \<lparr> event_id = ''position-ask-BTCUSD_PERP'', event_status = st \<rparr>"

section \<open>Properties of the quote arithmetic and of the risk evaluation\<close>

lemma orderDeviates_iff:
  "orderDeviates slot ms =
     (\<exists>ord. slot = Some ord \<and> status ord = Some ''NEW'' \<and>
            \<bar>price ord - midPrice ms\<bar> > maxDeviationPrice ms)"
  by (cases slot) (simp_all add: orderDeviates_def calculatePriceDeviation_def)

text \<open>
  C2. The risk check flags the bid for cancelling exactly when a bid order is present, its
  status is \<open>NEW\<close> and the absolute difference between its price and the mid price is
  strictly greater than the maximal deviation; the same for the ask. In particular an
  order in status \<open>NEW\<close> whose deviation equals the threshold is not flagged.
\<close>

theorem C2_cancel_flags_iff:
  "shouldCancelBid (checkOrdersAndPositions tp ms) =
     (\<exists>b. bidOrder tp = Some b \<and> status b = Some ''NEW'' \<and>
          \<bar>price b - midPrice ms\<bar> > maxDeviationPrice ms)
   \<and> shouldCancelAsk (checkOrdersAndPositions tp ms) =
     (\<exists>a. askOrder tp = Some a \<and> status a = Some ''NEW'' \<and>
          \<bar>price a - midPrice ms\<bar> > maxDeviationPrice ms)
   \<and> ((\<exists>b. bidOrder tp = Some b \<and> \<bar>price b - midPrice ms\<bar> = maxDeviationPrice ms)
        \<longrightarrow> \<not> shouldCancelBid (checkOrdersAndPositions tp ms))
   \<and> ((\<exists>a. askOrder tp = Some a \<and> \<bar>price a - midPrice ms\<bar> = maxDeviationPrice ms)
        \<longrightarrow> \<not> shouldCancelAsk (checkOrdersAndPositions tp ms))"
  by (auto simp: checkOrdersAndPositions_def Let_def orderDeviates_iff)

text \<open>
  A bid of 49950 against a mid of 53000 with threshold 3050 sits exactly on the boundary
  and is kept; with threshold 2650 it is flagged. The ask at 53050 is inside either way.
\<close>

theorem C2_cancel_flags_witness:
  "(\<exists>b. bidOrder examplePair = Some b \<and>
        \<bar>price b - midPrice (exampleMarket 3050)\<bar> = maxDeviationPrice (exampleMarket 3050))
   \<and> \<not> shouldCancelBid (checkOrdersAndPositions examplePair (exampleMarket 3050))
   \<and> shouldCancelBid (checkOrdersAndPositions examplePair (exampleMarket 2650))
   \<and> \<not> shouldCancelAsk (checkOrdersAndPositions examplePair (exampleMarket 2650))"
proof -
  have boundary: "\<exists>b. bidOrder examplePair = Some b \<and>
        \<bar>price b - midPrice (exampleMarket 3050)\<bar> = maxDeviationPrice (exampleMarket 3050)"
    by (simp add: examplePair_def exampleBid_def exampleMarket_def)
  have kept: "\<not> shouldCancelBid (checkOrdersAndPositions examplePair (exampleMarket 3050))"
    using C2_cancel_flags_iff [of examplePair "exampleMarket 3050"] boundary by blast
  have flagged: "shouldCancelBid (checkOrdersAndPositions examplePair (exampleMarket 2650))"
    using C2_cancel_flags_iff [of examplePair "exampleMarket 2650"]
    by (simp add: examplePair_def exampleBid_def exampleMarket_def)
  have ask: "\<not> shouldCancelAsk (checkOrdersAndPositions examplePair (exampleMarket 2650))"
    using C2_cancel_flags_iff [of examplePair "exampleMarket 2650"]
    by (simp add: examplePair_def exampleAsk_def exampleMarket_def)
  from boundary kept flagged ask show ?thesis by blast
qed

text \<open>
  C10. The risk check reads the mid price and the maximal deviation of the market state
  and nothing else of it: two market states that agree on these two fields give the same
  three flags for every trading pair, whatever their projected bid and ask prices, their
  ticker and their timestamp are.
\<close>

theorem C10_checks_depend_on_mid_and_threshold_only:
  assumes "midPrice ms = midPrice ms'"
      and "maxDeviationPrice ms = maxDeviationPrice ms'"
  shows "checkOrdersAndPositions tp ms = checkOrdersAndPositions tp ms'"
  using assms
  by (simp add: checkOrdersAndPositions_def orderDeviates_def positionDeviates_def
      split: option.split)

theorem C10_checks_witness:
  "midPrice (exampleMarket 2650) =
     midPrice ((exampleMarket 2650)\<lparr> market_ticker := ''ETHUSD'', bidPrice := 1, askPrice := 2,
                                      market_timestamp := 99 \<rparr>)
   \<and> maxDeviationPrice (exampleMarket 2650) =
     maxDeviationPrice ((exampleMarket 2650)\<lparr> market_ticker := ''ETHUSD'', bidPrice := 1,
                                               askPrice := 2, market_timestamp := 99 \<rparr>)
   \<and> checkOrdersAndPositions examplePair (exampleMarket 2650) =
     checkOrdersAndPositions examplePair
       ((exampleMarket 2650)\<lparr> market_ticker := ''ETHUSD'', bidPrice := 1, askPrice := 2,
                              market_timestamp := 99 \<rparr>)"
proof -
  let ?ms' = "(exampleMarket 2650)\<lparr> market_ticker := ''ETHUSD'', bidPrice := 1, askPrice := 2,
                                    market_timestamp := 99 \<rparr>"
  have m: "midPrice (exampleMarket 2650) = midPrice ?ms'" by simp
  have d: "maxDeviationPrice (exampleMarket 2650) = maxDeviationPrice ?ms'" by simp
  from m d C10_checks_depend_on_mid_and_threshold_only [OF m d, of examplePair]
  show ?thesis by blast
qed

lemma bid_target_formula: "calculateBidPrice mid bp = mid - mid * (bp / 10000)"
  by (simp add: calculateBidPrice_def basisPointsToDecimal_def)

lemma ask_target_formula: "calculateAskPrice mid bp = mid + mid * (bp / 10000)"
  by (simp add: calculateAskPrice_def basisPointsToDecimal_def)

lemma projection_prices:
  "bidPrice (calculateMarketState assets now t mid maxDev)
     = mid - (mid * projectionSpreadWidth assets t / 10000) / 2"
  "askPrice (calculateMarketState assets now t mid maxDev)
     = mid + (mid * projectionSpreadWidth assets t / 10000) / 2"
  by (simp_all add: calculateMarketState_def calculateSpreadAmount_def basisPointsToDecimal_def
      Let_def)




text \<open>
  C6 (amended). For a mid price that is not negative and a spread width that is not
  negative, the bid target is at most the mid price and the ask target at least the mid
  price. For a width of 0 both targets are the mid price, whatever its sign.
\<close>

theorem C6_targets_bracket_mid:
  "(0 \<le> mid \<and> 0 \<le> bp \<longrightarrow> calculateBidPrice mid bp \<le> mid \<and> mid \<le> calculateAskPrice mid bp)
   \<and> calculateBidPrice mid 0 = mid \<and> calculateAskPrice mid 0 = mid"
  by (simp add: bid_target_formula ask_target_formula)

theorem C6_targets_witness:
  "(0::number) \<le> 50000 \<and> (0::number) \<le> 10
   \<and> calculateBidPrice 50000 10 \<le> 50000 \<and> 50000 \<le> calculateAskPrice 50000 10
   \<and> calculateBidPrice 50000 0 = 50000 \<and> calculateAskPrice 50000 0 = 50000"
  using C6_targets_bracket_mid [of 50000 10] C6_targets_bracket_mid [of 50000 0]
  by simp

text \<open>
  The claim as stated, for every mid price, fails for a negative one: the oracle's price
  is a signed number that nothing checks, and at \<open>-100\<close> with a width of 10 the bid target
  \<open>-99.9\<close> is above the mid price and the ask target \<open>-100.1\<close> below it.
\<close>

theorem C6_negative_mid_counterexample:
  "(0::number) \<le> 10
   \<and> \<not> (calculateBidPrice (-100) 10 \<le> -100 \<and> -100 \<le> calculateAskPrice (-100) 10)"
  by (simp add: calculateBidPrice_def calculateAskPrice_def basisPointsToDecimal_def)

section \<open>Reconciliation\<close>

lemma updateSlot_miss: "\<not> slotHolds oid slot \<Longrightarrow> updateSlot oid st slot = (slot, False)"
  by (cases slot) (simp_all add: updateSlot_def slotHolds_def)

lemma updateSlot_hit:
  "slotHolds oid slot \<Longrightarrow>
   updateSlot oid st slot = (if terminal st then None else withStatus st slot, True)"
  by (cases slot) (simp_all add: updateSlot_def slotHolds_def terminal_def withStatus_def)

lemma updatePairs_miss:
  "\<forall>p \<in> set tps. \<not> pairHolds oid (snd p) \<Longrightarrow> updatePairs oid st tps = tps"
  by (induction tps) (auto simp: pairHolds_def updateSlot_miss)

lemma updatePairs_first:
  assumes "\<forall>p \<in> set pre. \<not> pairHolds oid (snd p)" and "pairHolds oid tp"
  shows "updatePairs oid st (pre @ (t, tp) # post) =
           pre @ (t, tp\<lparr> bidOrder := fst (updateSlot oid st (bidOrder tp)),
                         askOrder := fst (updateSlot oid st (askOrder tp)) \<rparr>) # post"
  using assms
proof (induction pre)
  case Nil
  then show ?case
    by (cases "slotHolds oid (bidOrder tp)"; cases "slotHolds oid (askOrder tp)")
       (simp_all add: pairHolds_def updateSlot_miss updateSlot_hit)
next
  case (Cons p pre)
  then show ?case
    by (cases p) (simp add: pairHolds_def updateSlot_miss)
qed

text \<open>
  C3 (amended). An order-status event changes nothing but the trading pairs. When no
  trading pair holds the event's id in a slot, the trading pairs are unchanged. Otherwise
  the first trading pair, in the order of the map, that holds the id in a slot is the
  only one acted upon, and in it every slot that holds the id is acted upon, the bid and
  the ask slot if both do: such a slot becomes empty for the status \<open>CANCELED\<close> or
  \<open>EXPIRED\<close> and keeps its order with only the status overwritten for any other status;
  a slot that does not hold the id, the positions and the ticker stay as they are.
\<close>

theorem C3_reconciliation_acts_on_first_matching_pair:
  fixes orderUpdate :: OrderUpdateEvent and s :: PriceSnapshotService
  defines "oid \<equiv> event_id orderUpdate" and "st \<equiv> event_status orderUpdate"
  shows "updateOrderStatus orderUpdate s
           = s\<lparr> tradingPairs := tradingPairs (updateOrderStatus orderUpdate s) \<rparr>
   \<and> ((\<forall>p \<in> set (tradingPairs s). \<not> pairHolds oid (snd p))
        \<longrightarrow> updateOrderStatus orderUpdate s = s)
   \<and> ((\<exists>p \<in> set (tradingPairs s). pairHolds oid (snd p))
        \<longrightarrow> (\<exists>pre t tp post. tradingPairs s = pre @ (t, tp) # post
               \<and> (\<forall>p \<in> set pre. \<not> pairHolds oid (snd p)) \<and> pairHolds oid tp))
   \<and> (\<forall>pre t tp post.
         tradingPairs s = pre @ (t, tp) # post
         \<and> (\<forall>p \<in> set pre. \<not> pairHolds oid (snd p)) \<and> pairHolds oid tp
        \<longrightarrow> (\<exists>tp'. tradingPairs (updateOrderStatus orderUpdate s) = pre @ (t, tp') # post
              \<and> bidOrder tp' = (if slotHolds oid (bidOrder tp)
                                 then (if terminal st then None else withStatus st (bidOrder tp))
                                 else bidOrder tp)
              \<and> askOrder tp' = (if slotHolds oid (askOrder tp)
                                 then (if terminal st then None else withStatus st (askOrder tp))
                                 else askOrder tp)
              \<and> ticker tp' = ticker tp
              \<and> longPosition tp' = longPosition tp
              \<and> shortPosition tp' = shortPosition tp))"
proof -
  have only_pairs: "updateOrderStatus orderUpdate s
           = s\<lparr> tradingPairs := tradingPairs (updateOrderStatus orderUpdate s) \<rparr>"
    by (simp add: updateOrderStatus_def)
  have miss: "updateOrderStatus orderUpdate s = s"
    if "\<forall>p \<in> set (tradingPairs s). \<not> pairHolds oid (snd p)"
    using updatePairs_miss [OF that, of st]
    by (simp add: updateOrderStatus_def oid_def st_def)
  have split: "\<exists>pre t tp post. tradingPairs s = pre @ (t, tp) # post
               \<and> (\<forall>p \<in> set pre. \<not> pairHolds oid (snd p)) \<and> pairHolds oid tp"
    if "\<exists>p \<in> set (tradingPairs s). pairHolds oid (snd p)"
  proof -
    from split_list_first_prop [OF that]
    obtain pre p post where "tradingPairs s = pre @ p # post" "pairHolds oid (snd p)"
      "\<forall>q \<in> set pre. \<not> pairHolds oid (snd q)" by blast
    then show ?thesis by (cases p) auto
  qed
  have hit: "\<exists>tp'. tradingPairs (updateOrderStatus orderUpdate s) = pre @ (t, tp') # post
              \<and> bidOrder tp' = (if slotHolds oid (bidOrder tp)
                                 then (if terminal st then None else withStatus st (bidOrder tp))
                                 else bidOrder tp)
              \<and> askOrder tp' = (if slotHolds oid (askOrder tp)
                                 then (if terminal st then None else withStatus st (askOrder tp))
                                 else askOrder tp)
              \<and> ticker tp' = ticker tp
              \<and> longPosition tp' = longPosition tp
              \<and> shortPosition tp' = shortPosition tp"
    if "tradingPairs s = pre @ (t, tp) # post"
      and "\<forall>p \<in> set pre. \<not> pairHolds oid (snd p)" and "pairHolds oid tp"
    for pre t tp post
  proof -
    let ?tp' = "tp\<lparr> bidOrder := fst (updateSlot oid st (bidOrder tp)),
                    askOrder := fst (updateSlot oid st (askOrder tp)) \<rparr>"
    have "tradingPairs (updateOrderStatus orderUpdate s) = pre @ (t, ?tp') # post"
      using updatePairs_first [OF that(2,3), of st t post] that(1)
      by (simp add: updateOrderStatus_def oid_def st_def)
    moreover have "bidOrder ?tp' = (if slotHolds oid (bidOrder tp)
                                 then (if terminal st then None else withStatus st (bidOrder tp))
                                 else bidOrder tp)"
      by (simp add: updateSlot_miss updateSlot_hit)
    moreover have "askOrder ?tp' = (if slotHolds oid (askOrder tp)
                                 then (if terminal st then None else withStatus st (askOrder tp))
                                 else askOrder tp)"
      by (simp add: updateSlot_miss updateSlot_hit)
    ultimately show ?thesis by (intro exI [of _ ?tp']) simp
  qed
  from only_pairs miss split hit show ?thesis by blast
qed

text \<open>
  Two instruments hold an order with the id \<open>B1\<close>: the event reaches the first only. An
  event for an id that no slot holds changes nothing.
\<close>

theorem C3_reconciliation_witness:
  "tradingPairs (updateOrderStatus \<lparr> event_id = ''B1'', event_status = ''FILLED'' \<rparr>
      (exampleService [(''BTCUSD'', examplePair), (''ETHUSD'', etherPair)]))
     = [(''BTCUSD'', examplePair\<lparr> bidOrder := Some (exampleBid\<lparr> status := Some ''FILLED'' \<rparr>) \<rparr>),
        (''ETHUSD'', etherPair)]
   \<and> updateOrderStatus \<lparr> event_id = ''ZZ'', event_status = ''CANCELED'' \<rparr>
        (exampleService [(''BTCUSD'', examplePair), (''ETHUSD'', etherPair)])
     = exampleService [(''BTCUSD'', examplePair), (''ETHUSD'', etherPair)]"
proof -
  let ?s = "exampleService [(''BTCUSD'', examplePair), (''ETHUSD'', etherPair)]"
  let ?hit = "\<lparr> event_id = ''B1'', event_status = ''FILLED'' \<rparr>"
  let ?miss = "\<lparr> event_id = ''ZZ'', event_status = ''CANCELED'' \<rparr>"
  have pairs: "tradingPairs ?s = [] @ (''BTCUSD'', examplePair) # [(''ETHUSD'', etherPair)]"
    by (simp add: exampleService_def)
  have before: "\<forall>p \<in> set []. \<not> pairHolds (event_id ?hit) (snd (p :: string \<times> TradingPair))"
    by simp
  have holds: "pairHolds (event_id ?hit) examplePair"
    by (simp add: pairHolds_def slotHolds_def examplePair_def exampleBid_def)
  from C3_reconciliation_acts_on_first_matching_pair [of ?hit ?s] pairs before holds
  obtain tp' where tp':
    "tradingPairs (updateOrderStatus ?hit ?s) = [] @ (''BTCUSD'', tp') # [(''ETHUSD'', etherPair)]"
    "bidOrder tp' = (if slotHolds (event_id ?hit) (bidOrder examplePair)
                     then (if terminal (event_status ?hit) then None
                           else withStatus (event_status ?hit) (bidOrder examplePair))
                     else bidOrder examplePair)"
    "askOrder tp' = (if slotHolds (event_id ?hit) (askOrder examplePair)
                     then (if terminal (event_status ?hit) then None
                           else withStatus (event_status ?hit) (askOrder examplePair))
                     else askOrder examplePair)"
    "ticker tp' = ticker examplePair" "longPosition tp' = longPosition examplePair"
    "shortPosition tp' = shortPosition examplePair"
    by blast
  have "tp' = examplePair\<lparr> bidOrder := Some (exampleBid\<lparr> status := Some ''FILLED'' \<rparr>) \<rparr>"
    using tp'(2-6)
    by (intro TradingPair.equality)
       (simp_all add: slotHolds_def terminal_def withStatus_def examplePair_def exampleBid_def
          exampleAsk_def)
  with tp'(1) have first: "tradingPairs (updateOrderStatus ?hit ?s)
     = [(''BTCUSD'', examplePair\<lparr> bidOrder := Some (exampleBid\<lparr> status := Some ''FILLED'' \<rparr>) \<rparr>),
        (''ETHUSD'', etherPair)]"
    by simp
  have nobody: "\<forall>p \<in> set (tradingPairs ?s). \<not> pairHolds (event_id ?miss) (snd p)"
    by (simp add: exampleService_def pairHolds_def slotHolds_def examplePair_def exampleBid_def
        exampleAsk_def etherPair_def)
  with C3_reconciliation_acts_on_first_matching_pair [of ?miss ?s]
  have "updateOrderStatus ?miss ?s = ?s" by blast
  with first show ?thesis by blast
qed

text \<open>
  The claim as stated, that only the first matching slot is acted upon, fails when both
  slots of one trading pair hold the id: the loop tries the ask block after the bid
  block and leaves (\<open>break\<close>) after both, so both slots are cleared.
\<close>

theorem C3_both_slots_counterexample:
  "slotHolds ''X'' (bidOrder twinPair) \<and> slotHolds ''X'' (askOrder twinPair)
   \<and> askOrder twinPair \<noteq> None
   \<and> tradingPairs (updateOrderStatus \<lparr> event_id = ''X'', event_status = ''CANCELED'' \<rparr>
        (exampleService [(''BTCUSD'', twinPair)]))
     = [(''BTCUSD'', twinPair\<lparr> bidOrder := None, askOrder := None \<rparr>)]"
  by (simp add: slotHolds_def twinPair_def exampleBid_def exampleAsk_def exampleService_def
      updateOrderStatus_def updateSlot_def)

section \<open>Shutdown\<close>

lemma isActive_liveOrder: "isActive ord = liveOrder ord"
  by (cases "status ord") (auto simp: isActive_def liveOrder_def truthy_def)

lemma activeSlot_ids:
  "map orderId (activeSlot t sd slot)
     = map order_id (filter liveOrder (case slot of None \<Rightarrow> [] | Some ord \<Rightarrow> [ord]))"
  by (cases slot) (simp_all add: activeSlot_def isActive_liveOrder)

lemma activeOrdersOf_ids:
  "map orderId (activeOrdersOf tps) = map order_id (filter liveOrder (slotOrders tps))"
  by (induction tps) (auto simp: slotOrders_def activeSlot_ids)

lemma activeOrdersOf_empty:
  "activeOrdersOf tps = [] \<longleftrightarrow> filter liveOrder (slotOrders tps) = []"
  using activeOrdersOf_ids [of tps] by (metis map_is_Nil_conv)

lemma slotsEmpty_clearAllOrders: "slotsEmpty (clearAllOrders tps)"
  by (induction tps) (auto simp: slotsEmpty_def clearAllOrders_def)



text \<open>
  C4 (amended). \<open>cancelAllActiveOrders\<close> returns at once and changes nothing when no slot
  holds a live order. When some slot does and the subaccount is not configured, it logs
  an error and changes nothing else: no cancel is sent. When some slot does and the
  subaccount is configured, both lock sets are empty in the state in which the bulk
  cancel is handed to the adapter, and the slots are still as they were. After the bulk
  cancel has succeeded every bid and ask slot is empty; after it has failed the error is
  logged and nothing else changes.
\<close>

theorem C4_shutdown_cancel_all:
  "(filter liveOrder (slotOrders (tradingPairs s)) = [] \<longrightarrow> cancelAllActiveOrders s = s)
   \<and> (filter liveOrder (slotOrders (tradingPairs s)) \<noteq> [] \<and> \<not> truthy (ETHEREAL_SUBACCOUNT s) \<longrightarrow>
        cancelAllActiveOrders s
          = s\<lparr> consoleError := consoleError s @ [''ETHEREAL_SUBACCOUNT not set, cannot cancel orders''] \<rparr>)
   \<and> (filter liveOrder (slotOrders (tradingPairs s)) \<noteq> [] \<and> truthy (ETHEREAL_SUBACCOUNT s) \<longrightarrow>
        orderCreationInProgress (cancelAllActiveOrders s) = {}
        \<and> orderCancellationInProgress (cancelAllActiveOrders s) = {}
        \<and> tradingPairs (cancelAllActiveOrders s) = tradingPairs s
        \<and> (etherealService s \<longrightarrow>
             (\<exists>request. sent (cancelAllActiveOrders s) = sent s @ [CancelOrder request]
                \<and> inFlight (cancelAllActiveOrders s)
                    = inFlight s @ [AwaitBulkCancel (order_ids request)])))
   \<and> slotsEmpty (tradingPairs (cancelAllActiveOrders_settled (Resolved response) s'))
   \<and> cancelAllActiveOrders_settled Rejected s'
       = s'\<lparr> consoleError := consoleError s' @ [''Error cancelling orders during shutdown:''] \<rparr>"
proof -
  have active: "getAllActiveOrders s = [] \<longleftrightarrow> filter liveOrder (slotOrders (tradingPairs s)) = []"
    by (simp add: getAllActiveOrders_def activeOrdersOf_empty)
  have idle: "cancelAllActiveOrders s = s" if "filter liveOrder (slotOrders (tradingPairs s)) = []"
    using that active by (simp add: cancelAllActiveOrders_def)
  have skipped: "cancelAllActiveOrders s
          = s\<lparr> consoleError := consoleError s @ [''ETHEREAL_SUBACCOUNT not set, cannot cancel orders''] \<rparr>"
    if "filter liveOrder (slotOrders (tradingPairs s)) \<noteq> []" "\<not> truthy (ETHEREAL_SUBACCOUNT s)"
    using that active by (simp add: cancelAllActiveOrders_def logError_def)
  have cleared: "orderCreationInProgress (cancelAllActiveOrders s) = {}
        \<and> orderCancellationInProgress (cancelAllActiveOrders s) = {}
        \<and> tradingPairs (cancelAllActiveOrders s) = tradingPairs s
        \<and> (etherealService s \<longrightarrow>
             (\<exists>request. sent (cancelAllActiveOrders s) = sent s @ [CancelOrder request]
                \<and> inFlight (cancelAllActiveOrders s)
                    = inFlight s @ [AwaitBulkCancel (order_ids request)]))"
    if "filter liveOrder (slotOrders (tradingPairs s)) \<noteq> []" "truthy (ETHEREAL_SUBACCOUNT s)"
    using that active by (simp add: cancelAllActiveOrders_def logError_def Let_def)
  have emptied: "slotsEmpty (tradingPairs (cancelAllActiveOrders_settled (Resolved response) s'))"
    by (simp add: cancelAllActiveOrders_settled_def slotsEmpty_clearAllOrders)
  have failed: "cancelAllActiveOrders_settled Rejected s'
       = s'\<lparr> consoleError := consoleError s' @ [''Error cancelling orders during shutdown:''] \<rparr>"
    by (simp add: cancelAllActiveOrders_settled_def logError_def)
  from idle skipped cleared emptied failed show ?thesis by blast
qed

text \<open>
  With a live bid and ask and both locks held, the bulk cancel is sent with the locks
  cleared, and its success empties the slots, the synthetic one too. Without the
  subaccount the error is logged and no request is sent.
\<close>

theorem C4_shutdown_witness:
  "orderCreationInProgress (cancelAllActiveOrders
      ((exampleService [(''BTCUSD'', examplePair), (''ETHUSD'', shortPair)])
         \<lparr> orderCreationInProgress := {''BTCUSD''}, orderCancellationInProgress := {''BTCUSD-bid-B1''} \<rparr>)) = {}
   \<and> orderCancellationInProgress (cancelAllActiveOrders
      ((exampleService [(''BTCUSD'', examplePair), (''ETHUSD'', shortPair)])
         \<lparr> orderCreationInProgress := {''BTCUSD''}, orderCancellationInProgress := {''BTCUSD-bid-B1''} \<rparr>)) = {}
   \<and> slotsEmpty (tradingPairs (cancelAllActiveOrders_settled (Resolved None)
        (exampleService [(''BTCUSD'', examplePair), (''ETHUSD'', shortPair)])))
   \<and> consoleError (cancelAllActiveOrders
        ((exampleService [(''BTCUSD'', examplePair)])\<lparr> ETHEREAL_SUBACCOUNT := None \<rparr>))
       = [''ETHEREAL_SUBACCOUNT not set, cannot cancel orders'']
   \<and> sent (cancelAllActiveOrders
        ((exampleService [(''BTCUSD'', examplePair)])\<lparr> ETHEREAL_SUBACCOUNT := None \<rparr>)) = []
   \<and> cancelAllActiveOrders (exampleService [(''ETHUSD'', shortPair)])
       = exampleService [(''ETHUSD'', shortPair)]"
proof -
  let ?locked = "(exampleService [(''BTCUSD'', examplePair), (''ETHUSD'', shortPair)])
         \<lparr> orderCreationInProgress := {''BTCUSD''}, orderCancellationInProgress := {''BTCUSD-bid-B1''} \<rparr>"
  let ?nosub = "(exampleService [(''BTCUSD'', examplePair)])\<lparr> ETHEREAL_SUBACCOUNT := None \<rparr>"
  let ?idle = "exampleService [(''ETHUSD'', shortPair)]"
  have live: "filter liveOrder (slotOrders (tradingPairs ?locked)) \<noteq> []"
    "filter liveOrder (slotOrders (tradingPairs ?nosub)) \<noteq> []"
    "filter liveOrder (slotOrders (tradingPairs ?idle)) = []"
    by (simp_all add: exampleService_def slotOrders_def examplePair_def shortPair_def
        liveOrder_def exampleBid_def exampleAsk_def syntheticAsk_def)
  have sub: "truthy (ETHEREAL_SUBACCOUNT ?locked)" "\<not> truthy (ETHEREAL_SUBACCOUNT ?nosub)"
    by (simp_all add: exampleService_def truthy_def)
  have locks: "orderCreationInProgress (cancelAllActiveOrders ?locked) = {}
      \<and> orderCancellationInProgress (cancelAllActiveOrders ?locked) = {}"
    using C4_shutdown_cancel_all [of ?locked] live(1) sub(1) by blast
  have emptied: "slotsEmpty (tradingPairs (cancelAllActiveOrders_settled (Resolved None)
        (exampleService [(''BTCUSD'', examplePair), (''ETHUSD'', shortPair)])))"
    using C4_shutdown_cancel_all by blast
  have "cancelAllActiveOrders ?nosub
          = ?nosub\<lparr> consoleError := consoleError ?nosub
                      @ [''ETHEREAL_SUBACCOUNT not set, cannot cancel orders''] \<rparr>"
    using C4_shutdown_cancel_all [of ?nosub] live(2) sub(2) by blast
  then have skipped: "consoleError (cancelAllActiveOrders ?nosub)
       = [''ETHEREAL_SUBACCOUNT not set, cannot cancel orders'']"
    "sent (cancelAllActiveOrders ?nosub) = []"
    by (simp_all add: exampleService_def)
  have idle: "cancelAllActiveOrders ?idle = ?idle"
    using C4_shutdown_cancel_all [of ?idle] live(3) by blast
  from locks emptied skipped idle show ?thesis by blast
qed

text \<open>
  The claim as stated fails when no slot holds a live order: with a filled bid in its
  slot, the placement lock held and no subaccount configured, the procedure returns at
  once; the slot still holds the order, the lock is still held and no error is logged.
\<close>

theorem C4_early_return_counterexample:
  "bidOrder filledPair \<noteq> None
   \<and> ETHEREAL_SUBACCOUNT ((exampleService [(''BTCUSD'', filledPair)])
        \<lparr> orderCreationInProgress := {''BTCUSD''}, ETHEREAL_SUBACCOUNT := None \<rparr>) = None
   \<and> tradingPairs (cancelAllActiveOrders ((exampleService [(''BTCUSD'', filledPair)])
        \<lparr> orderCreationInProgress := {''BTCUSD''}, ETHEREAL_SUBACCOUNT := None \<rparr>))
       = [(''BTCUSD'', filledPair)]
   \<and> orderCreationInProgress (cancelAllActiveOrders ((exampleService [(''BTCUSD'', filledPair)])
        \<lparr> orderCreationInProgress := {''BTCUSD''}, ETHEREAL_SUBACCOUNT := None \<rparr>))
       = {''BTCUSD''}
   \<and> consoleError (cancelAllActiveOrders ((exampleService [(''BTCUSD'', filledPair)])
        \<lparr> orderCreationInProgress := {''BTCUSD''}, ETHEREAL_SUBACCOUNT := None \<rparr>)) = []
   \<and> inFlight (cancelAllActiveOrders ((exampleService [(''BTCUSD'', filledPair)])
        \<lparr> orderCreationInProgress := {''BTCUSD''}, ETHEREAL_SUBACCOUNT := None \<rparr>)) = []"
  by (simp add: exampleService_def filledPair_def exampleBid_def cancelAllActiveOrders_def
      getAllActiveOrders_def activeSlot_def isActive_def truthy_def)

section \<open>Position warmup\<close>

lemma getPair_setPair: "getPair (setPair t tp s) t' = (if t' = t then Some tp else getPair s t')"
  by (simp add: getPair_def setPair_def update_conv')




section \<open>Single flight of placements and of deviation cancels\<close>

text \<open>
  Both lock invariants are kept by every function of the orchestrator, hence by every turn
  of the event loop, with one exception: the shutdown empties the cancel set whatever is
  in flight, so the cancel invariant is kept by every action but \<open>Shutdown\<close>. The placement
  invariant survives the shutdown because the timer is stopped first.
\<close>

lemma sameControl_refl [simp]: "sameControl s s" by (simp add: sameControl_def)

lemma sameControl_trans: "sameControl s s' \<Longrightarrow> sameControl s' s'' \<Longrightarrow> sameControl s s''"
  by (simp add: sameControl_def)

lemma sameControl_placeInv: "sameControl s s' \<Longrightarrow> placeInv s \<Longrightarrow> placeInv s'"
  by (simp add: sameControl_def placeInv_def placementsInFlight_def)

lemma sameControl_cancelInv: "sameControl s s' \<Longrightarrow> cancelInv s \<Longrightarrow> cancelInv s'"
  by (simp add: sameControl_def cancelInv_def cancelsInFlight_def)

lemma sameControl_logError [simp]: "sameControl s (logError m s)"
  by (simp add: sameControl_def logError_def)

lemma sameControl_setPair [simp]: "sameControl s (setPair t tp s)"
  by (simp add: sameControl_def setPair_def)

lemma sameControl_clearSide [simp]: "sameControl s (clearSide sd t s)"
  by (simp add: clearSide_def split: option.split)

lemma sameControl_updatePrice [simp]: "sameControl s (updatePrice p s)"
  by (simp add: sameControl_def updatePrice_def)

lemma sameControl_updateOrderStatus [simp]: "sameControl s (updateOrderStatus e s)"
  by (simp add: sameControl_def updateOrderStatus_def)

lemma sameControl_cleanup [simp]: "sameControl s (cleanupCompletedTradingPairs t s)"
  by (simp add: cleanupCompletedTradingPairs_def Let_def split: option.split)

lemma sameControl_installOrder [simp]: "sameControl s (installOrder t sd r resp now s)"
  by (simp add: installOrder_def Let_def)

lemma sameControl_cancelOrder_settled [simp]: "sameControl s (cancelOrder_settled t oid sd out s)"
  by (simp add: cancelOrder_settled_def split: Outcome.split)

lemma addsCancel_cancelInv:
  assumes "addsCancel s s'" and "cancelInv s"
  shows "cancelInv s'"
proof -
  from assms(1) obtain k key where k: "cancelKeyOf k = Some key"
    "key \<notin> orderCancellationInProgress s" "inFlight s' = inFlight s @ [k]"
    "orderCancellationInProgress s' = insert key (orderCancellationInProgress s)"
    by (auto simp: addsCancel_def)
  from assms(2) k(2) have none: "cancelsInFlight key s = []"
    by (auto simp: cancelInv_def)
  show ?thesis
    unfolding cancelInv_def
  proof (intro allI)
    fix key'
    show "length (cancelsInFlight key' s') \<le> 1 \<and>
          (cancelsInFlight key' s' \<noteq> [] \<longrightarrow> key' \<in> orderCancellationInProgress s')"
    proof (cases "key' = key")
      case True
      with none k show ?thesis by (simp add: cancelsInFlight_def)
    next
      case False
      with assms(2) k show ?thesis by (simp add: cancelsInFlight_def cancelInv_def)
    qed
  qed
qed

lemma addsCancel_placeInv: "addsCancel s s' \<Longrightarrow> placeInv s \<Longrightarrow> placeInv s'"
  by (auto simp: addsCancel_def placeInv_def placementsInFlight_def)

lemma addsPlacement_cancelInv: "addsPlacement s s' \<Longrightarrow> cancelInv s \<Longrightarrow> cancelInv s'"
  by (auto simp: addsPlacement_def cancelInv_def cancelsInFlight_def)

lemma placeInv_idle:
  "placeInv s \<Longrightarrow> snapshotTimer s \<Longrightarrow> t \<notin> orderCreationInProgress s \<Longrightarrow> placementsInFlight t s = []"
  by (auto simp: placeInv_def)

lemma addsPlacement_placeInv:
  assumes "addsPlacement s s'" and "placeInv s" and "snapshotTimer s"
  shows "placeInv s'"
proof -
  from assms(1) obtain k t where k: "placementOf k = Some t"
    "t \<notin> orderCreationInProgress s" "inFlight s' = inFlight s @ [k]"
    "orderCreationInProgress s' = insert t (orderCreationInProgress s)"
    "snapshotTimer s' = snapshotTimer s"
    by (auto simp: addsPlacement_def)
  from placeInv_idle [OF assms(2,3) k(2)] have none: "placementsInFlight t s = []" .
  have "length (placementsInFlight t' s') \<le> 1 \<and>
          (placementsInFlight t' s' \<noteq> [] \<longrightarrow> t' \<in> orderCreationInProgress s')" for t'
  proof (cases "t' = t")
    case True
    with none k show ?thesis by (simp add: placementsInFlight_def)
  next
    case False
    with assms(2,3) k show ?thesis by (simp add: placementsInFlight_def placeInv_def)
  qed
  then show ?thesis by (simp add: placeInv_def)
qed

lemma checkAsk_effect: "sameControl s (checkAsk t checks s) \<or> addsCancel s (checkAsk t checks s)"
  by (auto simp: checkAsk_def Let_def addsCancel_def sameControl_def logError_def
      split: option.split)

lemma checkBid_effect: "sameControl s (checkBid t checks s) \<or> addsCancel s (checkBid t checks s)"
proof -
  have log: "sameControl s (checkAsk t checks (logError m s))
             \<or> addsCancel s (checkAsk t checks (logError m s))" for m
    using checkAsk_effect [of "logError m s" t checks]
    by (auto simp: sameControl_def addsCancel_def logError_def)
  show ?thesis
    using checkAsk_effect [of s t checks] log
    by (auto simp: checkBid_def Let_def split: option.split)
       (auto simp: addsCancel_def)
qed

lemma risk_effect:
  "sameControl s (checkOrdersAndPositions_service t p now s)
   \<or> addsCancel s (checkOrdersAndPositions_service t p now s)"
  using checkBid_effect
  by (auto simp: checkOrdersAndPositions_service_def Let_def split: option.split)

lemma place_effect:
  "sameControl s (checkAndCreateOrders t p now s)
   \<or> addsPlacement s (checkAndCreateOrders t p now s)"
  by (auto simp: checkAndCreateOrders_def Let_def createBidOrder_def createAskOrder_def
      addsPlacement_def split: option.split)

lemma effect_timer:
  "sameControl s s' \<Longrightarrow> snapshotTimer s' = snapshotTimer s"
  "addsCancel s s' \<Longrightarrow> snapshotTimer s' = snapshotTimer s"
  "addsPlacement s s' \<Longrightarrow> snapshotTimer s' = snapshotTimer s"
  by (auto simp: sameControl_def addsCancel_def addsPlacement_def)

lemma risk_placeInv:
  "placeInv s \<Longrightarrow> placeInv (checkOrdersAndPositions_service t p now s)"
  using risk_effect [of s t p now] sameControl_placeInv addsCancel_placeInv by blast

lemma risk_cancelInv:
  "cancelInv s \<Longrightarrow> cancelInv (checkOrdersAndPositions_service t p now s)"
  using risk_effect [of s t p now] sameControl_cancelInv addsCancel_cancelInv by blast

lemma risk_timer:
  "snapshotTimer (checkOrdersAndPositions_service t p now s) = snapshotTimer s"
  using risk_effect [of s t p now] effect_timer by blast

lemma place_placeInv:
  "placeInv s \<Longrightarrow> snapshotTimer s \<Longrightarrow> placeInv (checkAndCreateOrders t p now s)"
  using place_effect [of s t p now] sameControl_placeInv addsPlacement_placeInv by blast

lemma place_cancelInv:
  "cancelInv s \<Longrightarrow> cancelInv (checkAndCreateOrders t p now s)"
  using place_effect [of s t p now] sameControl_cancelInv addsPlacement_cancelInv by blast

lemma place_timer:
  "snapshotTimer (checkAndCreateOrders t p now s) = snapshotTimer s"
  using place_effect [of s t p now] effect_timer by blast

lemma cleanup_placeInv: "placeInv s \<Longrightarrow> placeInv (cleanupCompletedTradingPairs t s)"
  using sameControl_cleanup sameControl_placeInv by blast

lemma cleanup_cancelInv: "cancelInv s \<Longrightarrow> cancelInv (cleanupCompletedTradingPairs t s)"
  using sameControl_cleanup sameControl_cancelInv by blast

lemma cleanup_timer: "snapshotTimer (cleanupCompletedTradingPairs t s) = snapshotTimer s"
  using sameControl_cleanup effect_timer by blast

lemma snapshotTicker_placeInv:
  assumes "placeInv s" and "snapshotTimer s"
  shows "placeInv (snapshotTicker now entry s) \<and> snapshotTimer (snapshotTicker now entry s)"
  using assms
  by (simp add: snapshotTicker_def Let_def cleanup_placeInv cleanup_timer place_placeInv
      place_timer risk_placeInv risk_timer)

lemma snapshotTicker_cancelInv:
  assumes "cancelInv s"
  shows "cancelInv (snapshotTicker now entry s)"
  using assms
  by (simp add: snapshotTicker_def Let_def cleanup_cancelInv place_cancelInv risk_cancelInv)

lemma fold_snapshot_placeInv:
  "placeInv s \<Longrightarrow> snapshotTimer s \<Longrightarrow>
   placeInv (fold (snapshotTicker now) entries s) \<and> snapshotTimer (fold (snapshotTicker now) entries s)"
  by (induction entries arbitrary: s) (simp_all add: snapshotTicker_placeInv)

lemma fold_snapshot_cancelInv:
  "cancelInv s \<Longrightarrow> cancelInv (fold (snapshotTicker now) entries s)"
  by (induction entries arbitrary: s) (simp_all add: snapshotTicker_cancelInv)

lemma filter_dropAt:
  assumes "i < length xs"
  shows "length (filter P (dropAt i xs)) = length (filter P xs) - (if P (xs ! i) then 1 else 0)"
proof -
  have "filter P xs = filter P (take i xs) @ filter P [xs ! i] @ filter P (drop (Suc i) xs)"
    using assms by (metis append_Cons append_Nil filter_append id_take_nth_drop)
  then show ?thesis by (simp add: dropAt_def)
qed

lemma set_dropAt: "set (dropAt i xs) \<subseteq> set xs"
  by (auto simp: dropAt_def dest: in_set_takeD in_set_dropD)

lemma filter_dropAt_empty: "filter P xs = [] \<Longrightarrow> filter P (dropAt i xs) = []"
  using set_dropAt [of i xs] by (auto simp: filter_empty_conv)

text \<open>A settled call leaves the list; what it counted for drops to none.\<close>

lemma drop_placement:
  assumes "placeInv s" and "i < length (inFlight s)"
  shows "placeInv (s\<lparr> inFlight := dropAt i (inFlight s) \<rparr>)"
    and "placementOf (inFlight s ! i) = Some t \<Longrightarrow>
         placementsInFlight t (s\<lparr> inFlight := dropAt i (inFlight s) \<rparr>) = []"
    and "placementOf (inFlight s ! i) = Some t \<Longrightarrow> snapshotTimer s \<Longrightarrow> t \<in> orderCreationInProgress s"
proof -
  have le: "length (filter P (dropAt i (inFlight s))) \<le> length (filter P (inFlight s))" for P
    using filter_dropAt [OF assms(2), of P] by simp
  have ne: "filter P (dropAt i (inFlight s)) \<noteq> [] \<Longrightarrow> filter P (inFlight s) \<noteq> []" for P
    using filter_dropAt_empty by blast
  show "placeInv (s\<lparr> inFlight := dropAt i (inFlight s) \<rparr>)"
    using assms(1) le ne
    unfolding placeInv_def placementsInFlight_def
    by (simp, meson le_trans)
  { assume k: "placementOf (inFlight s ! i) = Some t"
    have "length (filter (\<lambda>k. placementOf k = Some t) (dropAt i (inFlight s)))
            = length (filter (\<lambda>k. placementOf k = Some t) (inFlight s)) - 1"
      using filter_dropAt [OF assms(2), of "\<lambda>k. placementOf k = Some t"] k by simp
    moreover have "length (filter (\<lambda>k. placementOf k = Some t) (inFlight s)) \<le> 1"
      using assms(1) by (simp add: placeInv_def placementsInFlight_def)
    ultimately show "placementsInFlight t (s\<lparr> inFlight := dropAt i (inFlight s) \<rparr>) = []"
      by (simp add: placementsInFlight_def)
    have "inFlight s ! i \<in> set (inFlight s)" using assms(2) by simp
    with k have "placementsInFlight t s \<noteq> []"
      by (auto simp: placementsInFlight_def filter_empty_conv)
    then show "snapshotTimer s \<Longrightarrow> t \<in> orderCreationInProgress s"
      using assms(1) by (simp add: placeInv_def) }
qed

lemma drop_cancel:
  assumes "cancelInv s" and "i < length (inFlight s)"
  shows "cancelKeyOf (inFlight s ! i) = None \<Longrightarrow> cancelInv (s\<lparr> inFlight := dropAt i (inFlight s) \<rparr>)"
    and "cancelKeyOf (inFlight s ! i) = Some key \<Longrightarrow>
         cancelInv (s\<lparr> inFlight := dropAt i (inFlight s),
                      orderCancellationInProgress := orderCancellationInProgress s - {key} \<rparr>)"
proof -
  have le: "length (filter P (dropAt i (inFlight s))) \<le> length (filter P (inFlight s))" for P
    using filter_dropAt [OF assms(2), of P] by simp
  have ne: "filter P (dropAt i (inFlight s)) \<noteq> [] \<Longrightarrow> filter P (inFlight s) \<noteq> []" for P
    using filter_dropAt_empty by blast
  have inv: "length (filter (\<lambda>k. cancelKeyOf k = Some key') (inFlight s)) \<le> 1"
    "filter (\<lambda>k. cancelKeyOf k = Some key') (inFlight s) \<noteq> [] \<Longrightarrow> key' \<in> orderCancellationInProgress s"
    for key'
    using assms(1) by (auto simp: cancelInv_def cancelsInFlight_def)
  show "cancelKeyOf (inFlight s ! i) = None \<Longrightarrow> cancelInv (s\<lparr> inFlight := dropAt i (inFlight s) \<rparr>)"
    unfolding cancelInv_def cancelsInFlight_def
    using inv le ne by (simp, meson le_trans)
  assume k: "cancelKeyOf (inFlight s ! i) = Some key"
  have "length (filter (\<lambda>k. cancelKeyOf k = Some key) (dropAt i (inFlight s)))
            = length (filter (\<lambda>k. cancelKeyOf k = Some key) (inFlight s)) - 1"
    using filter_dropAt [OF assms(2), of "\<lambda>k. cancelKeyOf k = Some key"] k by simp
  with inv(1) [of key] have gone: "filter (\<lambda>k. cancelKeyOf k = Some key) (dropAt i (inFlight s)) = []"
    by simp
  show "cancelInv (s\<lparr> inFlight := dropAt i (inFlight s),
                      orderCancellationInProgress := orderCancellationInProgress s - {key} \<rparr>)"
    unfolding cancelInv_def cancelsInFlight_def
  proof (intro allI)
    fix key'
    show "length (filter (\<lambda>k. cancelKeyOf k = Some key')
            (inFlight (s\<lparr> inFlight := dropAt i (inFlight s),
                      orderCancellationInProgress := orderCancellationInProgress s - {key} \<rparr>))) \<le> 1
        \<and> (filter (\<lambda>k. cancelKeyOf k = Some key')
            (inFlight (s\<lparr> inFlight := dropAt i (inFlight s),
                      orderCancellationInProgress := orderCancellationInProgress s - {key} \<rparr>)) \<noteq> []
           \<longrightarrow> key' \<in> orderCancellationInProgress (s\<lparr> inFlight := dropAt i (inFlight s),
                      orderCancellationInProgress := orderCancellationInProgress s - {key} \<rparr>))"
    proof (cases "key' = key")
      case True
      with gone show ?thesis by simp
    next
      case False
      then show ?thesis
        using inv [of key'] le [of "\<lambda>k. cancelKeyOf k = Some key'"] ne [of "\<lambda>k. cancelKeyOf k = Some key'"]
        by auto
    qed
  qed
qed

lemma placeInv_cong:
  "inFlight s' = inFlight s \<Longrightarrow> orderCreationInProgress s' = orderCreationInProgress s \<Longrightarrow>
   snapshotTimer s' = snapshotTimer s \<Longrightarrow> placeInv s' = placeInv s"
  by (simp add: placeInv_def placementsInFlight_def)

lemma cancelInv_cong:
  "inFlight s' = inFlight s \<Longrightarrow> orderCancellationInProgress s' = orderCancellationInProgress s \<Longrightarrow>
   cancelInv s' = cancelInv s"
  by (simp add: cancelInv_def cancelsInFlight_def)

lemma releaseCreation_placeInv:
  "placeInv s \<Longrightarrow> placementsInFlight t s = [] \<Longrightarrow> placeInv (releaseCreation t s)"
  by (auto simp: placeInv_def placementsInFlight_def releaseCreation_def)

lemma createAskOrder_placeInv:
  assumes "placeInv s" and "placementsInFlight t s = []"
      and "snapshotTimer s \<longrightarrow> t \<in> orderCreationInProgress s"
  shows "placeInv (createAskOrder t p config now s)"
proof -
  have "length (placementsInFlight t' (createAskOrder t p config now s)) \<le> 1
        \<and> (snapshotTimer (createAskOrder t p config now s) \<longrightarrow>
             placementsInFlight t' (createAskOrder t p config now s) \<noteq> [] \<longrightarrow>
             t' \<in> orderCreationInProgress (createAskOrder t p config now s))" for t'
    using assms
    by (cases "t' = t") (auto simp: placeInv_def placementsInFlight_def createAskOrder_def Let_def)
  then show ?thesis by (simp add: placeInv_def)
qed

lemma sameControl_placements:
  "sameControl s s' \<Longrightarrow> placementsInFlight t s' = placementsInFlight t s"
  by (simp add: sameControl_def placementsInFlight_def)

lemma sameControl_creation:
  "sameControl s s' \<Longrightarrow> orderCreationInProgress s' = orderCreationInProgress s"
  by (simp add: sameControl_def)

lemma resume_placeInv:
  assumes "placeInv s" and "i < length (inFlight s)"
  shows "placeInv (resume (inFlight s ! i) out now (s\<lparr> inFlight := dropAt i (inFlight s) \<rparr>))"
proof -
  let ?s1 = "s\<lparr> inFlight := dropAt i (inFlight s) \<rparr>"
  note d = drop_placement [OF assms]
  show ?thesis
  proof (cases "inFlight s ! i")
    case (AwaitBidCancel t oid cancelKey checks)
    let ?s2 = "releaseCancel cancelKey (cancelOrder_settled t oid BID out ?s1)"
    have "placeInv ?s2 = placeInv ?s1"
      by (rule placeInv_cong)
         (simp_all add: releaseCancel_def cancelOrder_settled_def clearSide_def setPair_def
            logError_def split: Outcome.split option.split)
    with d(1) have "placeInv ?s2" by simp
    then have "placeInv (checkAsk t checks ?s2)"
      using checkAsk_effect [of ?s2 t checks] sameControl_placeInv addsCancel_placeInv by blast
    with AwaitBidCancel show ?thesis by (simp add: resume_def)
  next
    case (AwaitAskCancel t oid cancelKey)
    let ?s2 = "releaseCancel cancelKey (cancelOrder_settled t oid ASK out ?s1)"
    have "placeInv ?s2 = placeInv ?s1"
      by (rule placeInv_cong)
         (simp_all add: releaseCancel_def cancelOrder_settled_def clearSide_def setPair_def
            logError_def split: Outcome.split option.split)
    with d(1) AwaitAskCancel show ?thesis by (simp add: resume_def)
  next
    case (AwaitBidPlace t currentPrice config needsAskOrder request)
    then have k: "placementOf (inFlight s ! i) = Some t" by simp
    note none = d(2) [OF k] and held = d(3) [OF k]
    show ?thesis
    proof (cases out)
      case Rejected
      let ?s2 = "logError (''['' @ t @ ''] Error creating orders:'') ?s1"
      have sc: "sameControl ?s1 ?s2" by (rule sameControl_logError)
      have "placeInv ?s2" using sc d(1) by (rule sameControl_placeInv)
      moreover have "placementsInFlight t ?s2 = []"
        using sameControl_placements [OF sc] none by simp
      ultimately have "placeInv (releaseCreation t ?s2)" by (rule releaseCreation_placeInv)
      with AwaitBidPlace Rejected show ?thesis by (simp add: resume_def bidPlace_settled_def)
    next
      case (Resolved response)
      let ?s2 = "installOrder t BID request response now ?s1"
      have sc: "sameControl ?s1 ?s2" by (rule sameControl_installOrder)
      have s2: "placeInv ?s2" "placementsInFlight t ?s2 = []"
        "snapshotTimer ?s2 \<longrightarrow> t \<in> orderCreationInProgress ?s2"
      proof -
        show "placeInv ?s2" using sc d(1) by (rule sameControl_placeInv)
        show "placementsInFlight t ?s2 = []" using sameControl_placements [OF sc] none by simp
        show "snapshotTimer ?s2 \<longrightarrow> t \<in> orderCreationInProgress ?s2"
          using held sameControl_creation [OF sc] effect_timer(1) [OF sc] by simp
      qed
      have "placeInv (createAskOrder t currentPrice config now ?s2)"
        using s2 by (rule createAskOrder_placeInv)
      moreover have "placeInv (releaseCreation t ?s2)"
        using s2(1,2) by (rule releaseCreation_placeInv)
      ultimately show ?thesis
        using AwaitBidPlace Resolved by (simp add: resume_def bidPlace_settled_def Let_def)
    qed
  next
    case (AwaitAskPlace t request)
    then have k: "placementOf (inFlight s ! i) = Some t" by simp
    note none = d(2) [OF k]
    have *: "placeInv (releaseCreation t s2)" if sc: "sameControl ?s1 s2" for s2
    proof -
      have "placeInv s2" using sc d(1) by (rule sameControl_placeInv)
      moreover have "placementsInFlight t s2 = []"
        using sameControl_placements [OF sc] none by simp
      ultimately show ?thesis by (rule releaseCreation_placeInv)
    qed
    show ?thesis
      using AwaitAskPlace * [OF sameControl_logError] * [OF sameControl_installOrder]
      by (simp add: resume_def askPlace_settled_def split: Outcome.split)
  next
    case (AwaitBulkCancel orderIds)
    have "placeInv ((cancelAllActiveOrders_settled out ?s1)\<lparr> exited := True \<rparr>) = placeInv ?s1"
      by (rule placeInv_cong)
         (simp_all add: cancelAllActiveOrders_settled_def logError_def split: Outcome.split)
    with d(1) AwaitBulkCancel show ?thesis by (simp add: resume_def)
  qed
qed

lemma resume_cancelInv:
  assumes "cancelInv s" and "i < length (inFlight s)"
  shows "cancelInv (resume (inFlight s ! i) out now (s\<lparr> inFlight := dropAt i (inFlight s) \<rparr>))"
proof -
  let ?s1 = "s\<lparr> inFlight := dropAt i (inFlight s) \<rparr>"
  note d = drop_cancel [OF assms]
  show ?thesis
  proof (cases "inFlight s ! i")
    case (AwaitBidCancel t oid cancelKey checks)
    let ?s2 = "releaseCancel cancelKey (cancelOrder_settled t oid BID out ?s1)"
    have "cancelInv ?s2 = cancelInv (s\<lparr> inFlight := dropAt i (inFlight s),
                      orderCancellationInProgress := orderCancellationInProgress s - {cancelKey} \<rparr>)"
      by (rule cancelInv_cong)
         (simp_all add: releaseCancel_def cancelOrder_settled_def clearSide_def setPair_def
            logError_def split: Outcome.split option.split)
    with d(2) [of cancelKey] AwaitBidCancel have "cancelInv ?s2" by simp
    then have "cancelInv (checkAsk t checks ?s2)"
      using checkAsk_effect [of ?s2 t checks] sameControl_cancelInv addsCancel_cancelInv by blast
    with AwaitBidCancel show ?thesis by (simp add: resume_def)
  next
    case (AwaitAskCancel t oid cancelKey)
    let ?s2 = "releaseCancel cancelKey (cancelOrder_settled t oid ASK out ?s1)"
    have "cancelInv ?s2 = cancelInv (s\<lparr> inFlight := dropAt i (inFlight s),
                      orderCancellationInProgress := orderCancellationInProgress s - {cancelKey} \<rparr>)"
      by (rule cancelInv_cong)
         (simp_all add: releaseCancel_def cancelOrder_settled_def clearSide_def setPair_def
            logError_def split: Outcome.split option.split)
    with d(2) [of cancelKey] AwaitAskCancel show ?thesis by (simp add: resume_def)
  next
    case (AwaitBidPlace t currentPrice config needsAskOrder request)
    then have s1: "cancelInv ?s1" using d(1) by simp
    have "cancelInv (bidPlace_settled t currentPrice config needsAskOrder request out now ?s1)"
      using s1
      by (auto simp: bidPlace_settled_def releaseCreation_def logError_def installOrder_def
          setPair_def createAskOrder_def Let_def cancelInv_def cancelsInFlight_def
          split: Outcome.split)
    with AwaitBidPlace show ?thesis by (simp add: resume_def)
  next
    case (AwaitAskPlace t request)
    then have s1: "cancelInv ?s1" using d(1) by simp
    have "cancelInv (askPlace_settled t request out now ?s1)"
      using s1
      by (auto simp: askPlace_settled_def releaseCreation_def logError_def installOrder_def
          setPair_def Let_def cancelInv_def cancelsInFlight_def split: Outcome.split)
    with AwaitAskPlace show ?thesis by (simp add: resume_def)
  next
    case (AwaitBulkCancel orderIds)
    then have s1: "cancelInv ?s1" using d(1) by simp
    have "cancelInv ((cancelAllActiveOrders_settled out ?s1)\<lparr> exited := True \<rparr>) = cancelInv ?s1"
      by (rule cancelInv_cong)
         (simp_all add: cancelAllActiveOrders_settled_def logError_def split: Outcome.split)
    with s1 AwaitBulkCancel show ?thesis by (simp add: resume_def)
  qed
qed

lemma shutdown_placeInv:
  assumes "placeInv s"
  shows "placeInv (shutdown s)"
proof -
  have count: "placementsInFlight t (shutdown s) = placementsInFlight t s" for t
    by (simp add: shutdown_def cancelAllActiveOrders_def logError_def Let_def placementsInFlight_def)
  have "\<not> snapshotTimer (shutdown s)"
    by (simp add: shutdown_def cancelAllActiveOrders_def logError_def Let_def)
  with count assms show ?thesis by (simp add: placeInv_def)
qed

lemma step_placeInv: "placeInv s \<Longrightarrow> placeInv (step a s)"
proof (cases a)
  case (Tick now)
  assume "placeInv s"
  then show ?thesis
    using Tick fold_snapshot_placeInv [of s now "latestPrices s"]
    by (simp add: step_def takeSnapshot_def)
next
  case (Settle i out now)
  assume "placeInv s"
  then show ?thesis using Settle resume_placeInv by (simp add: step_def)
next
  case Shutdown
  assume "placeInv s"
  then show ?thesis using Shutdown shutdown_placeInv by (simp add: step_def)
next
  case (Price priceUpdate)
  assume "placeInv s"
  then show ?thesis
    using Price sameControl_placeInv [OF sameControl_updatePrice] by (simp add: step_def)
next
  case (OrderUpdate orderUpdate)
  assume "placeInv s"
  then show ?thesis
    using OrderUpdate sameControl_placeInv [OF sameControl_updateOrderStatus]
    by (simp add: step_def)
qed

lemma step_cancelInv: "cancelInv s \<Longrightarrow> a \<noteq> Shutdown \<Longrightarrow> cancelInv (step a s)"
proof (cases a)
  case (Tick now)
  assume "cancelInv s"
  then show ?thesis
    using Tick fold_snapshot_cancelInv [of s now "latestPrices s"]
    by (simp add: step_def takeSnapshot_def)
next
  case (Settle i out now)
  assume "cancelInv s"
  then show ?thesis using Settle resume_cancelInv by (simp add: step_def)
next
  case Shutdown
  assume "a \<noteq> Shutdown"
  with Shutdown show ?thesis by simp
next
  case (Price priceUpdate)
  assume "cancelInv s"
  then show ?thesis
    using Price sameControl_cancelInv [OF sameControl_updatePrice] by (simp add: step_def)
next
  case (OrderUpdate orderUpdate)
  assume "cancelInv s"
  then show ?thesis
    using OrderUpdate sameControl_cancelInv [OF sameControl_updateOrderStatus]
    by (simp add: step_def)
qed

lemma run_placeInv: "placeInv s \<Longrightarrow> placeInv (run actions s)"
  unfolding run_def by (induction actions arbitrary: s) (simp_all add: step_placeInv)

lemma run_cancelInv: "cancelInv s \<Longrightarrow> Shutdown \<notin> set actions \<Longrightarrow> cancelInv (run actions s)"
  unfolding run_def by (induction actions arbitrary: s) (auto simp: step_cancelInv)

lemma idle_invs: "inFlight s = [] \<Longrightarrow> placeInv s \<and> cancelInv s"
  by (simp add: placeInv_def cancelInv_def placementsInFlight_def cancelsInFlight_def)

section \<open>Position ids are kept out of the requests\<close>

text \<open>
  The invariant \<open>keepsOut\<close>: every order with a position id in a slot is synthetic, every
  suspended bid cancel whose ask flag is set belongs to an instrument with a clean ask
  slot, and every request sent so far is clean. Each turn of the event loop keeps it,
  provided the exchange names no position id.
\<close>

lemma slotClean_seeded: "slotClean slot \<Longrightarrow> slotSeeded slot"
  by (cases slot) (simp_all add: slotClean_def slotSeeded_def)

lemma slot_None [simp]: "slotSeeded None" "slotClean None"
  by (simp_all add: slotSeeded_def slotClean_def)

lemma updateSlot_seeded:
  "slotSeeded slot \<Longrightarrow> \<not> positionId oid \<Longrightarrow> slotSeeded (fst (updateSlot oid st slot))"
  by (cases slot) (auto simp: updateSlot_def slotSeeded_def)

lemma updateSlot_clean:
  "slotClean slot \<Longrightarrow> slotClean (fst (updateSlot oid st slot))"
  by (cases slot) (auto simp: updateSlot_def slotClean_def)

lemma updatePairs_Cons:
  "updatePairs oid st ((t, tp) # rest) =
     (if snd (updateSlot oid st (bidOrder tp)) \<or> snd (updateSlot oid st (askOrder tp))
      then (t, tp\<lparr> bidOrder := fst (updateSlot oid st (bidOrder tp)),
                    askOrder := fst (updateSlot oid st (askOrder tp)) \<rparr>) # rest
      else (t, tp) # updatePairs oid st rest)"
  by (simp add: Let_def split: prod.split)

lemma updatePairs_seeded:
  assumes "\<not> positionId oid"
  shows "\<forall>p \<in> set tps. slotSeeded (bidOrder (snd p)) \<and> slotSeeded (askOrder (snd p)) \<Longrightarrow>
         \<forall>p \<in> set (updatePairs oid st tps). slotSeeded (bidOrder (snd p)) \<and> slotSeeded (askOrder (snd p))"
proof (induction tps)
  case Nil
  then show ?case by simp
next
  case (Cons p tps)
  obtain t tp where p: "p = (t, tp)" by (cases p)
  from Cons.prems p have tp: "slotSeeded (bidOrder tp)" "slotSeeded (askOrder tp)" by simp_all
  note u = updateSlot_seeded [OF tp(1) assms, of st] updateSlot_seeded [OF tp(2) assms, of st]
  from Cons p tp u show ?case
    by (simp add: updatePairs_Cons del: updatePairs.simps)
qed

lemma updatePairs_ask:
  "map_of (updatePairs oid st tps) t = Some tp' \<Longrightarrow>
   \<exists>tp. map_of tps t = Some tp \<and> (slotClean (askOrder tp) \<longrightarrow> slotClean (askOrder tp'))
                             \<and> (slotClean (bidOrder tp) \<longrightarrow> slotClean (bidOrder tp'))"
proof (induction tps)
  case Nil
  then show ?case by simp
next
  case (Cons p tps)
  obtain t0 tp0 where p: "p = (t0, tp0)" by (cases p)
  from Cons p show ?case
    using updateSlot_clean [of "askOrder tp0" oid st] updateSlot_clean [of "bidOrder tp0" oid st]
    by (auto simp: updatePairs_Cons simp del: updatePairs.simps split: if_splits)
qed

lemma askClean_updateOrderStatus: "askClean s t \<Longrightarrow> askClean (updateOrderStatus e s) t"
  using updatePairs_ask [of "event_id e" "event_status e" "tradingPairs s" t]
  by (auto simp: askClean_def getPair_def updateOrderStatus_def split: option.splits)

lemma seeded_updateOrderStatus:
  "seeded s \<Longrightarrow> \<not> positionId (event_id e) \<Longrightarrow> seeded (updateOrderStatus e s)"
  using updatePairs_seeded [of "event_id e" "tradingPairs s" "event_status e"]
  by (simp add: seeded_def updateOrderStatus_def)

lemma set_alist_update: "set (AList.update k v al) \<subseteq> insert (k, v) (set al)"
  by (induction al) auto

lemma seeded_setPair:
  "seeded s \<Longrightarrow> slotSeeded (bidOrder tp) \<Longrightarrow> slotSeeded (askOrder tp) \<Longrightarrow> seeded (setPair t tp s)"
  using set_alist_update [of t tp "tradingPairs s"]
  by (auto simp: seeded_def setPair_def)

lemma seeded_getPair:
  "seeded s \<Longrightarrow> getPair s t = Some tp \<Longrightarrow> slotSeeded (bidOrder tp) \<and> slotSeeded (askOrder tp)"
  by (auto simp: seeded_def getPair_def dest!: map_of_SomeD)

lemma askClean_setPair:
  "askClean (setPair t' tp s) t = (if t = t' then slotClean (askOrder tp) else askClean s t)"
  by (simp add: askClean_def getPair_def setPair_def update_conv')

lemma bidClean_setPair:
  "bidClean (setPair t' tp s) t = (if t = t' then slotClean (bidOrder tp) else bidClean s t)"
  by (simp add: bidClean_def getPair_def setPair_def update_conv')

lemma clean_pairs_cong:
  "tradingPairs s' = tradingPairs s \<Longrightarrow> askClean s' t = askClean s t"
  "tradingPairs s' = tradingPairs s \<Longrightarrow> bidClean s' t = bidClean s t"
  "tradingPairs s' = tradingPairs s \<Longrightarrow> seeded s' = seeded s"
  by (simp_all add: askClean_def bidClean_def seeded_def getPair_def)

lemma stale_pairs_cong:
  "tradingPairs s' = tradingPairs s \<Longrightarrow> staleAskClean s' k = staleAskClean s k"
  using clean_pairs_cong(1) [of s' s] by (cases k) simp_all

text \<open>
  Most functions only empty slots, change a status in place or store an order with an id
  of the exchange: they put no position id into a slot and send nothing.
\<close>

lemma onlyShrinks_keepsOut: "onlyShrinks s s' \<Longrightarrow> keepsOut s \<Longrightarrow> keepsOut s'"
proof -
  assume a: "onlyShrinks s s'" "keepsOut s"
  have "staleAskClean s' k" if "staleAskClean s k" for k
    using that a(1) by (cases k) (auto simp: onlyShrinks_def)
  with a show ?thesis by (auto simp: keepsOut_def onlyShrinks_def)
qed

lemma onlyShrinks_refl [simp]: "onlyShrinks s s"
  by (simp add: onlyShrinks_def)

lemma onlyShrinks_trans: "onlyShrinks s s' \<Longrightarrow> onlyShrinks s' s'' \<Longrightarrow> onlyShrinks s s''"
  by (auto simp: onlyShrinks_def)

lemma onlyShrinks_cong:
  "tradingPairs s' = tradingPairs s \<Longrightarrow> inFlight s' = inFlight s \<Longrightarrow> sent s' = sent s \<Longrightarrow>
   onlyShrinks s s'"
  using clean_pairs_cong(1,3) [of s' s] by (simp add: onlyShrinks_def)

lemma onlyShrinks_logError [simp]: "onlyShrinks s (logError m s)"
  by (rule onlyShrinks_cong) (simp_all add: logError_def)

lemma onlyShrinks_updatePrice [simp]: "onlyShrinks s (updatePrice p s)"
  by (rule onlyShrinks_cong) (simp_all add: updatePrice_def)

lemma onlyShrinks_releaseCancel [simp]: "onlyShrinks s (releaseCancel key s)"
  by (rule onlyShrinks_cong) (simp_all add: releaseCancel_def)

lemma onlyShrinks_releaseCreation [simp]: "onlyShrinks s (releaseCreation t s)"
  by (rule onlyShrinks_cong) (simp_all add: releaseCreation_def)

lemma onlyShrinks_updateOrderStatus:
  "\<not> positionId (event_id e) \<Longrightarrow> onlyShrinks s (updateOrderStatus e s)"
  by (simp add: onlyShrinks_def seeded_updateOrderStatus askClean_updateOrderStatus)
     (simp add: updateOrderStatus_def)

lemma onlyShrinks_setPair:
  assumes "getPair s t = Some tp"
      and "slotSeeded (bidOrder tp) \<longrightarrow> slotSeeded (bidOrder tp')"
      and "slotSeeded (askOrder tp) \<longrightarrow> slotSeeded (askOrder tp')"
      and "slotClean (askOrder tp) \<longrightarrow> slotClean (askOrder tp')"
  shows "onlyShrinks s (setPair t tp' s)"
proof -
  have 1: "seeded (setPair t tp' s)" if "seeded s"
  proof -
    from seeded_getPair [OF that assms(1)] assms(2,3)
    have "slotSeeded (bidOrder tp')" "slotSeeded (askOrder tp')" by simp_all
    then show ?thesis by (rule seeded_setPair [OF that])
  qed
  have 2: "askClean (setPair t tp' s) t'" if "askClean s t'" for t'
  proof (cases "t' = t")
    case True
    with that assms(1) have "slotClean (askOrder tp)" by (simp add: askClean_def)
    with assms(4) True show ?thesis by (simp add: askClean_setPair)
  next
    case False
    with that show ?thesis by (simp add: askClean_setPair)
  qed
  have 3: "inFlight (setPair t tp' s) = inFlight s" "sent (setPair t tp' s) = sent s"
    by (simp_all add: setPair_def)
  show ?thesis unfolding onlyShrinks_def using 1 2 3 by blast
qed

lemma onlyShrinks_clearSide [simp]: "onlyShrinks s (clearSide sd t s)"
proof (cases "getPair s t")
  case None
  then show ?thesis by (simp add: clearSide_def)
next
  case (Some tp)
  have "onlyShrinks s (setPair t (tp\<lparr> bidOrder := None \<rparr>) s)"
    by (rule onlyShrinks_setPair [OF Some]) simp_all
  moreover have "onlyShrinks s (setPair t (tp\<lparr> askOrder := None \<rparr>) s)"
    by (rule onlyShrinks_setPair [OF Some]) simp_all
  ultimately show ?thesis using Some by (simp add: clearSide_def)
qed

lemma onlyShrinks_cleanup [simp]: "onlyShrinks s (cleanupCompletedTradingPairs t s)"
proof (cases "getPair s t")
  case None
  then show ?thesis by (simp add: cleanupCompletedTradingPairs_def)
next
  case (Some tp)
  have "onlyShrinks s (setPair t (tp\<lparr> bidOrder := None, askOrder := None \<rparr>) s)"
    by (rule onlyShrinks_setPair [OF Some]) simp_all
  then show ?thesis using Some by (simp add: cleanupCompletedTradingPairs_def Let_def)
qed

lemma onlyShrinks_cancelOrder_settled [simp]: "onlyShrinks s (cancelOrder_settled t oid sd out s)"
  by (simp add: cancelOrder_settled_def split: Outcome.split)

lemma clearAllOrders_lookup:
  "map_of (clearAllOrders tps) t = Some tp \<Longrightarrow> bidOrder tp = None \<and> askOrder tp = None"
  by (induction tps) (auto simp: clearAllOrders_def split: if_splits)

lemma onlyShrinks_bulk_settled [simp]: "onlyShrinks s (cancelAllActiveOrders_settled out s)"
proof (cases out)
  case Rejected
  then show ?thesis by (simp add: cancelAllActiveOrders_settled_def)
next
  case (Resolved response)
  let ?s' = "s\<lparr> tradingPairs := clearAllOrders (tradingPairs s) \<rparr>"
  have "seeded ?s'" by (auto simp: seeded_def clearAllOrders_def)
  moreover have "askClean ?s' t" for t
    using clearAllOrders_lookup [of "tradingPairs s" t]
    by (auto simp: askClean_def getPair_def split: option.split)
  ultimately show ?thesis using Resolved
    by (simp add: onlyShrinks_def cancelAllActiveOrders_settled_def)
qed

lemma onlyShrinks_installOrder:
  assumes "\<forall>oid. response = Some oid \<longrightarrow> \<not> positionId oid"
  shows "onlyShrinks s (installOrder t sd request response now s)"
proof (cases "truthy response")
  case False
  then show ?thesis by (simp add: installOrder_def)
next
  case True
  then obtain oid where oid: "response = Some oid" by (cases response) (simp_all add: truthy_def)
  let ?ord = "placedOrder oid t sd request now"
  from oid assms have clean: "slotClean (Some ?ord)"
    by (simp add: slotClean_def placedOrder_def)
  then have ok: "slotSeeded (Some ?ord)" by (rule slotClean_seeded)
  let ?tp = "case getPair s t of None \<Rightarrow> emptyPair t | Some tp \<Rightarrow> tp"
  let ?tp' = "if sd = BID then ?tp\<lparr> bidOrder := Some ?ord \<rparr> else ?tp\<lparr> askOrder := Some ?ord \<rparr>"
  have eq: "installOrder t sd request response now s = setPair t ?tp' s"
    using True oid by (simp add: installOrder_def Let_def)
  have old: "slotSeeded (bidOrder ?tp) \<and> slotSeeded (askOrder ?tp)" if "seeded s"
  proof (cases "getPair s t")
    case None
    then show ?thesis by (simp add: emptyPair_def)
  next
    case (Some tp)
    with seeded_getPair [OF that Some] show ?thesis by simp
  qed
  have new: "slotSeeded (bidOrder ?tp') \<and> slotSeeded (askOrder ?tp')" if "seeded s"
    using old [OF that] ok by (cases "sd = BID") simp_all
  have 1: "seeded (setPair t ?tp' s)" if "seeded s"
    using new [OF that] seeded_setPair [OF that] by blast
  have keep: "slotClean (askOrder ?tp')" if "askClean s t"
  proof (cases "getPair s t")
    case None
    with clean show ?thesis by (cases "sd = BID") (simp_all add: emptyPair_def)
  next
    case (Some tp)
    with that have "slotClean (askOrder tp)" by (simp add: askClean_def)
    with Some clean show ?thesis by (cases "sd = BID") simp_all
  qed
  have 2: "askClean (setPair t ?tp' s) t'" if "askClean s t'" for t'
    using that keep by (cases "t' = t") (simp_all add: askClean_setPair)
  have 3: "inFlight (setPair t ?tp' s) = inFlight s" "sent (setPair t ?tp' s) = sent s"
    by (simp_all add: setPair_def)
  show ?thesis
    unfolding eq onlyShrinks_def using 1 2 3 by blast
qed

lemma keepsOut_add:
  assumes "keepsOut s" and "tradingPairs s' = tradingPairs s"
      and "set (inFlight s') \<subseteq> set (inFlight s) \<union> K" and "\<forall>k \<in> K. staleAskClean s k"
      and "set (sent s') \<subseteq> set (sent s) \<union> R" and "\<forall>request \<in> R. cleanRequest request"
  shows "keepsOut s'"
proof -
  have "seeded s'" using assms(1,2) clean_pairs_cong(3) [OF assms(2)] by (simp add: keepsOut_def)
  moreover have "staleAskClean s' k" if "k \<in> set (inFlight s')" for k
    using that assms(1,3,4) stale_pairs_cong [OF assms(2), of k] by (auto simp: keepsOut_def)
  moreover have "cleanRequest request" if "request \<in> set (sent s')" for request
    using that assms(1,5,6) by (auto simp: keepsOut_def)
  ultimately show ?thesis by (simp add: keepsOut_def)
qed

lemma keepsOut_same:
  "keepsOut s \<Longrightarrow> tradingPairs s' = tradingPairs s \<Longrightarrow> inFlight s' = inFlight s \<Longrightarrow>
   sent s' = sent s \<Longrightarrow> keepsOut s'"
  using keepsOut_add [of s s' "{}" "{}"] by simp

lemma checkAsk_keepsOut:
  assumes "keepsOut s" and "shouldCancelAsk checks \<longrightarrow> askClean s t"
  shows "keepsOut (checkAsk t checks s)"
proof (cases "getPair s t")
  case None
  with assms(1) show ?thesis by (simp add: checkAsk_def)
next
  case (Some tp)
  show ?thesis
  proof (cases "askOrder tp")
    case None
    with Some assms(1) show ?thesis by (simp add: checkAsk_def)
  next
    case (Some ask)
    note tp = \<open>getPair s t = Some tp\<close>
    show ?thesis
    proof (cases "shouldCancelAsk checks")
      case False
      with tp Some assms(1) show ?thesis by (simp add: checkAsk_def)
    next
      case True
      with assms(2) tp Some have clean: "\<not> positionId (order_id ask)"
        by (simp add: askClean_def slotClean_def)
      let ?key = "t @ ''-ask-'' @ order_id ask"
      let ?req = "CancelOrder \<lparr> order_ids = [order_id ask], subaccount = the (ETHEREAL_SUBACCOUNT s) \<rparr>"
      let ?k = "AwaitAskCancel t (order_id ask) ?key"
      have "keepsOut (checkAsk t checks s)"
      proof (rule keepsOut_add [OF assms(1), where K = "{?k}" and R = "{?req}"])
        show "tradingPairs (checkAsk t checks s) = tradingPairs s"
          using tp Some by (auto simp: checkAsk_def Let_def logError_def)
        show "set (inFlight (checkAsk t checks s)) \<subseteq> set (inFlight s) \<union> {?k}"
          using tp Some by (auto simp: checkAsk_def Let_def logError_def)
        show "set (sent (checkAsk t checks s)) \<subseteq> set (sent s) \<union> {?req}"
          using tp Some by (auto simp: checkAsk_def Let_def logError_def)
        show "\<forall>k \<in> {?k}. staleAskClean s k" by simp
        show "\<forall>request \<in> {?req}. cleanRequest request" using clean by simp
      qed
      then show ?thesis .
    qed
  qed
qed

lemma checkBid_keepsOut:
  assumes "keepsOut s" and "shouldCancelAsk checks \<longrightarrow> askClean s t"
      and "shouldCancelBid checks \<longrightarrow> bidClean s t"
  shows "keepsOut (checkBid t checks s)"
proof -
  note ask = checkAsk_keepsOut [OF assms(1,2)]
  have logged: "keepsOut (checkAsk t checks (logError m s))" for m
  proof (rule checkAsk_keepsOut)
    show "keepsOut (logError m s)"
      using assms(1) onlyShrinks_keepsOut onlyShrinks_logError by blast
    show "shouldCancelAsk checks \<longrightarrow> askClean (logError m s) t"
      using assms(2) clean_pairs_cong(1) [of "logError m s" s t] by (simp add: logError_def)
  qed
  show ?thesis
  proof (cases "getPair s t")
    case None
    with assms(1) show ?thesis by (simp add: checkBid_def)
  next
    case (Some tp)
    show ?thesis
    proof (cases "bidOrder tp")
      case None
      with Some ask show ?thesis by (simp add: checkBid_def)
    next
      case (Some bid)
      note tp = \<open>getPair s t = Some tp\<close>
      show ?thesis
      proof (cases "shouldCancelBid checks")
        case False
        with tp Some ask show ?thesis by (simp add: checkBid_def)
      next
        case True
        with assms(3) tp Some have clean: "\<not> positionId (order_id bid)"
          by (simp add: bidClean_def slotClean_def)
        let ?key = "t @ ''-bid-'' @ order_id bid"
        let ?req = "CancelOrder \<lparr> order_ids = [order_id bid], subaccount = the (ETHEREAL_SUBACCOUNT s) \<rparr>"
        let ?k = "AwaitBidCancel t (order_id bid) ?key checks"
        let ?s' = "s\<lparr> orderCancellationInProgress := insert ?key (orderCancellationInProgress s),
                       sent := sent s @ [?req], inFlight := inFlight s @ [?k] \<rparr>"
        have "keepsOut ?s'"
          by (rule keepsOut_add [OF assms(1), where K = "{?k}" and R = "{?req}"])
             (use clean assms(2) in simp_all)
        with tp Some True ask logged show ?thesis by (simp add: checkBid_def Let_def)
      qed
    qed
  qed
qed

lemma flagged_clean:
  assumes "seeded s" and "getPair s t = Some tp"
  shows "shouldCancelBid (checkOrdersAndPositions tp ms) \<longrightarrow> bidClean s t"
    and "shouldCancelAsk (checkOrdersAndPositions tp ms) \<longrightarrow> askClean s t"
  using seeded_getPair [OF assms] assms(2)
  by (auto simp: checkOrdersAndPositions_def orderDeviates_def bidClean_def askClean_def
      slotClean_def slotSeeded_def split: option.splits if_splits)

lemma risk_keepsOut:
  assumes "keepsOut s"
  shows "keepsOut (checkOrdersAndPositions_service t p now s)"
proof -
  have "keepsOut (checkBid t (checkOrdersAndPositions tp ms) s)"
    if "getPair s t = Some tp" for tp ms
    using assms flagged_clean [OF _ that, of ms] checkBid_keepsOut by (simp add: keepsOut_def)
  with assms show ?thesis
    by (simp add: checkOrdersAndPositions_service_def Let_def split: option.split)
qed

lemma place_keepsOut:
  assumes "keepsOut s"
  shows "keepsOut (checkAndCreateOrders t p now s)"
proof -
  let ?s' = "checkAndCreateOrders t p now s"
  have "\<exists>K R. tradingPairs ?s' = tradingPairs s
      \<and> set (inFlight ?s') \<subseteq> set (inFlight s) \<union> K \<and> (\<forall>k \<in> K. staleAskClean s k)
      \<and> set (sent ?s') \<subseteq> set (sent s) \<union> R \<and> (\<forall>request \<in> R. cleanRequest request)"
  proof (cases "map_of (assetConfigs s) t")
    case None
    then have "?s' = s" by (simp add: checkAndCreateOrders_def)
    then show ?thesis by (intro exI [of _ "{}"]) simp
  next
    case (Some config)
    let ?K = "{AwaitBidPlace t p config b (bidOrderRequest t p config now) | b. True}
               \<union> {AwaitAskPlace t (askOrderRequest t p config now)}"
    let ?R = "{PlaceOrder (bidOrderRequest t p config now), PlaceOrder (askOrderRequest t p config now)}"
    have "tradingPairs ?s' = tradingPairs s"
      "set (inFlight ?s') \<subseteq> set (inFlight s) \<union> ?K"
      "set (sent ?s') \<subseteq> set (sent s) \<union> ?R"
      using Some
      by (auto simp: checkAndCreateOrders_def Let_def createBidOrder_def createAskOrder_def)
    moreover have "\<forall>k \<in> ?K. staleAskClean s k" by auto
    moreover have "\<forall>request \<in> ?R. cleanRequest request"
      by (simp add: bidOrderRequest_def askOrderRequest_def Let_def)
    ultimately show ?thesis by blast
  qed
  then show ?thesis using keepsOut_add [OF assms] by blast
qed

lemma snapshotTicker_keepsOut: "keepsOut s \<Longrightarrow> keepsOut (snapshotTicker now entry s)"
  using onlyShrinks_keepsOut [OF onlyShrinks_cleanup]
  by (simp add: snapshotTicker_def Let_def risk_keepsOut place_keepsOut)

lemma takeSnapshot_keepsOut: "keepsOut s \<Longrightarrow> keepsOut (fold (snapshotTicker now) entries s)"
  by (induction entries arbitrary: s) (simp_all add: snapshotTicker_keepsOut)

lemma dropAt_keepsOut: "keepsOut s \<Longrightarrow> keepsOut (s\<lparr> inFlight := dropAt i (inFlight s) \<rparr>)"
proof -
  assume a: "keepsOut s"
  show ?thesis
  proof (rule keepsOut_add [OF a, where K = "{}" and R = "{}"])
    show "set (inFlight (s\<lparr> inFlight := dropAt i (inFlight s) \<rparr>)) \<subseteq> set (inFlight s) \<union> {}"
      using set_dropAt [of i "inFlight s"] by simp
  qed simp_all
qed

lemma createAskOrder_keepsOut: "keepsOut s \<Longrightarrow> keepsOut (createAskOrder t p config now s)"
  by (rule keepsOut_add [where K = "{AwaitAskPlace t (askOrderRequest t p config now)}"
        and R = "{PlaceOrder (askOrderRequest t p config now)}"])
     (auto simp: createAskOrder_def Let_def askOrderRequest_def)

lemma resume_keepsOut:
  assumes "keepsOut s" and "i < length (inFlight s)"
      and "\<forall>oid. out = Resolved (Some oid) \<longrightarrow> \<not> positionId oid"
  shows "keepsOut (resume (inFlight s ! i) out now (s\<lparr> inFlight := dropAt i (inFlight s) \<rparr>))"
proof -
  let ?s1 = "s\<lparr> inFlight := dropAt i (inFlight s) \<rparr>"
  have s1: "keepsOut ?s1" using assms(1) by (rule dropAt_keepsOut)
  have stale: "staleAskClean s (inFlight s ! i)"
    using assms(1,2) by (simp add: keepsOut_def)
  show ?thesis
  proof (cases "inFlight s ! i")
    case (AwaitBidCancel t oid cancelKey checks)
    let ?s2 = "releaseCancel cancelKey (cancelOrder_settled t oid BID out ?s1)"
    have shrink: "onlyShrinks ?s1 ?s2"
      using onlyShrinks_trans [OF onlyShrinks_cancelOrder_settled onlyShrinks_releaseCancel] .
    then have s2: "keepsOut ?s2" using s1 by (rule onlyShrinks_keepsOut)
    have "askClean ?s1 t" if "shouldCancelAsk checks"
      using that stale AwaitBidCancel clean_pairs_cong(1) [of ?s1 s t] by simp
    with shrink have "shouldCancelAsk checks \<longrightarrow> askClean ?s2 t"
      by (simp add: onlyShrinks_def)
    with s2 have "keepsOut (checkAsk t checks ?s2)" by (rule checkAsk_keepsOut)
    with AwaitBidCancel show ?thesis by (simp add: resume_def)
  next
    case (AwaitAskCancel t oid cancelKey)
    let ?s2 = "releaseCancel cancelKey (cancelOrder_settled t oid ASK out ?s1)"
    have "onlyShrinks ?s1 ?s2"
      using onlyShrinks_trans [OF onlyShrinks_cancelOrder_settled onlyShrinks_releaseCancel] .
    then have "keepsOut ?s2" using s1 by (rule onlyShrinks_keepsOut)
    with AwaitAskCancel show ?thesis by (simp add: resume_def)
  next
    case (AwaitBidPlace t currentPrice config needsAskOrder request)
    show ?thesis
    proof (cases out)
      case Rejected
      let ?s2 = "releaseCreation t (logError (''['' @ t @ ''] Error creating orders:'') ?s1)"
      have "onlyShrinks ?s1 ?s2"
        using onlyShrinks_trans [OF onlyShrinks_logError onlyShrinks_releaseCreation] .
      then have "keepsOut ?s2" using s1 by (rule onlyShrinks_keepsOut)
      with AwaitBidPlace Rejected show ?thesis by (simp add: resume_def bidPlace_settled_def)
    next
      case (Resolved response)
      let ?s2 = "installOrder t BID request response now ?s1"
      have "onlyShrinks ?s1 ?s2"
        using assms(3) Resolved by (intro onlyShrinks_installOrder) simp
      then have s2: "keepsOut ?s2" using s1 by (rule onlyShrinks_keepsOut)
      then have "keepsOut (createAskOrder t currentPrice config now ?s2)"
        by (rule createAskOrder_keepsOut)
      moreover have "keepsOut (releaseCreation t ?s2)"
        using s2 onlyShrinks_keepsOut [OF onlyShrinks_releaseCreation] by blast
      ultimately show ?thesis
        using AwaitBidPlace Resolved by (simp add: resume_def bidPlace_settled_def Let_def)
    qed
  next
    case (AwaitAskPlace t request)
    show ?thesis
    proof (cases out)
      case Rejected
      let ?s2 = "releaseCreation t (logError (''['' @ t @ ''] Error creating orders:'') ?s1)"
      have "onlyShrinks ?s1 ?s2"
        using onlyShrinks_trans [OF onlyShrinks_logError onlyShrinks_releaseCreation] .
      then have "keepsOut ?s2" using s1 by (rule onlyShrinks_keepsOut)
      with AwaitAskPlace Rejected show ?thesis by (simp add: resume_def askPlace_settled_def)
    next
      case (Resolved response)
      let ?s2 = "installOrder t ASK request response now ?s1"
      have "onlyShrinks ?s1 ?s2"
        using assms(3) Resolved by (intro onlyShrinks_installOrder) simp
      then have "onlyShrinks ?s1 (releaseCreation t ?s2)"
        using onlyShrinks_trans [OF _ onlyShrinks_releaseCreation] by blast
      then have "keepsOut (releaseCreation t ?s2)" using s1 by (rule onlyShrinks_keepsOut)
      with AwaitAskPlace Resolved show ?thesis by (simp add: resume_def askPlace_settled_def)
    qed
  next
    case (AwaitBulkCancel orderIds)
    let ?s2 = "cancelAllActiveOrders_settled out ?s1"
    have "keepsOut ?s2" using s1 onlyShrinks_keepsOut [OF onlyShrinks_bulk_settled] by blast
    then have "keepsOut (?s2\<lparr> exited := True \<rparr>)" by (rule keepsOut_same) simp_all
    with AwaitBulkCancel show ?thesis by (simp add: resume_def)
  qed
qed

lemma activeOrdersOf_clean: "\<forall>a \<in> set (activeOrdersOf tps). \<not> positionId (orderId a)"
  by (induction tps)
     (auto simp: activeSlot_def isActive_def positionId_def split: option.splits if_splits)

lemma cancelAll_keepsOut:
  assumes "keepsOut s"
  shows "keepsOut (cancelAllActiveOrders s)"
proof -
  let ?ids = "map orderId (getAllActiveOrders s)"
  let ?req = "CancelOrder \<lparr> order_ids = ?ids, subaccount = the (ETHEREAL_SUBACCOUNT s) \<rparr>"
  have clean: "cleanRequest ?req"
    using activeOrdersOf_clean [of "tradingPairs s"] by (simp add: getAllActiveOrders_def)
  show ?thesis
  proof (rule keepsOut_add [OF assms, where K = "{AwaitBulkCancel ?ids}" and R = "{?req}"])
    show "tradingPairs (cancelAllActiveOrders s) = tradingPairs s"
      by (simp add: cancelAllActiveOrders_def Let_def logError_def)
    show "set (inFlight (cancelAllActiveOrders s)) \<subseteq> set (inFlight s) \<union> {AwaitBulkCancel ?ids}"
      by (auto simp: cancelAllActiveOrders_def Let_def logError_def)
    show "set (sent (cancelAllActiveOrders s)) \<subseteq> set (sent s) \<union> {?req}"
      by (auto simp: cancelAllActiveOrders_def Let_def logError_def)
    show "\<forall>k \<in> {AwaitBulkCancel ?ids}. staleAskClean s k" by simp
    show "\<forall>request \<in> {?req}. cleanRequest request" using clean by simp
  qed
qed

lemma shutdown_keepsOut: "keepsOut s \<Longrightarrow> keepsOut (shutdown s)"
proof -
  assume a: "keepsOut s"
  have "keepsOut (s\<lparr> snapshotTimer := False \<rparr>)" using a by (rule keepsOut_same) simp_all
  then have 1: "keepsOut (cancelAllActiveOrders (s\<lparr> snapshotTimer := False \<rparr>))"
    by (rule cancelAll_keepsOut)
  then have "keepsOut ((cancelAllActiveOrders (s\<lparr> snapshotTimer := False \<rparr>))\<lparr> exited := True \<rparr>)"
    by (rule keepsOut_same) simp_all
  with 1 show ?thesis by (simp add: shutdown_def Let_def)
qed

lemma step_keepsOut:
  assumes "keepsOut s" and "exchangeAction a"
  shows "keepsOut (step a s)"
proof (cases a)
  case (Price priceUpdate)
  with assms(1) onlyShrinks_keepsOut [OF onlyShrinks_updatePrice] show ?thesis
    by (simp add: step_def)
next
  case (Tick now)
  with assms(1) takeSnapshot_keepsOut [of s now "latestPrices s"] show ?thesis
    by (simp add: step_def takeSnapshot_def)
next
  case (OrderUpdate orderUpdate)
  with assms(2) have "\<not> positionId (event_id orderUpdate)" by simp
  from onlyShrinks_keepsOut [OF onlyShrinks_updateOrderStatus [OF this] assms(1)] OrderUpdate assms(1)
  show ?thesis by (simp add: step_def)
next
  case (Settle i out now)
  with assms(2) have "\<forall>oid. out = Resolved (Some oid) \<longrightarrow> \<not> positionId oid" by auto
  with assms(1) Settle resume_keepsOut show ?thesis by (simp add: step_def)
next
  case Shutdown
  with assms(1) shutdown_keepsOut show ?thesis by (simp add: step_def)
qed

lemma run_keepsOut:
  "keepsOut s \<Longrightarrow> \<forall>a \<in> set actions. exchangeAction a \<Longrightarrow> keepsOut (run actions s)"
  unfolding run_def by (induction actions arbitrary: s) (simp_all add: step_keepsOut)

section \<open>The two temporal properties\<close>

lemma round_starts_locked:
  "inFlight (checkAndCreateOrders t p now s) \<noteq> inFlight s \<Longrightarrow>
   t \<notin> orderCreationInProgress s \<and> t \<in> orderCreationInProgress (checkAndCreateOrders t p now s)"
  by (auto simp: checkAndCreateOrders_def Let_def createBidOrder_def createAskOrder_def
      split: option.splits if_splits)

lemma locked_no_round:
  "t \<in> orderCreationInProgress s \<Longrightarrow> checkAndCreateOrders t p now s = s"
  by (simp add: checkAndCreateOrders_def split: option.split)

lemma round_exits_unlocked:
  "t \<notin> orderCreationInProgress (askPlace_settled t request out now s)"
  "t \<notin> orderCreationInProgress (bidPlace_settled t p config needsAskOrder request Rejected now s)"
  "t \<notin> orderCreationInProgress (bidPlace_settled t p config False request out now s)"
  by (simp_all add: askPlace_settled_def bidPlace_settled_def releaseCreation_def Let_def
      split: Outcome.split)

lemma round_goes_on:
  "inFlight (bidPlace_settled t p config True request (Resolved response) now s)
     = inFlight s @ [AwaitAskPlace t (askOrderRequest t p config now)]
   \<and> orderCreationInProgress (bidPlace_settled t p config True request (Resolved response) now s)
     = orderCreationInProgress s"
  by (simp add: bidPlace_settled_def createAskOrder_def installOrder_def setPair_def Let_def)




lemma seeded_loadPosition: "seeded s \<Longrightarrow> seeded (loadPosition parseFloat now position s)"
proof (cases "truthy (resolveTicker (assetConfigs s) position)")
  case False
  assume "seeded s"
  with False show ?thesis by (simp add: loadPosition_def)
next
  case True
  assume a: "seeded s"
  let ?t = "the (resolveTicker (assetConfigs s) position)"
  let ?tp = "case getPair s ?t of None \<Rightarrow> emptyPair ?t | Some tp \<Rightarrow> tp"
  have old: "slotSeeded (bidOrder ?tp)" "slotSeeded (askOrder ?tp)"
    using seeded_getPair [OF a, of ?t] by (cases "getPair s ?t"; simp add: emptyPair_def)+
  have new: "slotSeeded (Some ord)" if "status ord = Some ''FILLED''" for ord
    using that by (simp add: slotSeeded_def)
  show ?thesis
    using True old new
    by (simp add: loadPosition_def Let_def seeded_setPair [OF a])
qed




end
